theory Spec2Isabelle
  imports Main
begin

section \<open>JavaScript values\<close>

text \<open>
  Stored groupings are foreign JSON data, so the store inspects them with \<open>typeof\<close>,
  truthiness and optional property reads.  A value is modelled with the shape JSON gives
  it.  The code does three things with a number: it tests \<open>typeof\<close>, it tests truthiness,
  and it turns it into a string (\<open>String(x)\<close>, \<open>join\<close>, and the property key of
  \<open>xs[x]\<close>).  All three are functions of the string \<open>String(x)\<close>, so a number (\<open>JNum\<close>)
  is kept as that string: \<open>JNum ''3''\<close> is \<open>3\<close>, \<open>JNum ''-1.5''\<close> is \<open>-1.5\<close>,
  \<open>JNum ''1e+21''\<close> is \<open>1e21\<close>, \<open>JNum ''NaN''\<close> is \<open>NaN\<close>, and both zeros are
  \<open>JNum ''0''\<close>.  An object is its list of own properties in insertion order.  Strings
  are byte lists (UTF-8).
\<close>

datatype jsval =
    JUndef
  | JNull
  | JBool bool
  | JNum string
  | JStr string
  | JArr "jsval list"
  | JObj "(string \<times> jsval) list"

fun truthy :: "jsval \<Rightarrow> bool" where
  "truthy JUndef = False"
| "truthy JNull = False"
| "truthy (JBool b) = b"
| "truthy (JNum s) = (s \<noteq> ''0'' \<and> s \<noteq> ''NaN'')"
| "truthy (JStr s) = (s \<noteq> [])"
| "truthy (JArr xs) = True"
| "truthy (JObj ps) = True"

text \<open>\<open>typeof v === 'string'\<close> and \<open>typeof v === 'number'\<close>.\<close>

fun isString :: "jsval \<Rightarrow> bool" where
  "isString (JStr s) = True"
| "isString v = False"

fun isNumber :: "jsval \<Rightarrow> bool" where
  "isNumber (JNum s) = True"
| "isNumber v = False"

text \<open>
  \<open>v?.k\<close>: the own property, \<open>undefined\<close> when it is missing or \<open>v\<close> has none.  The
  store and the UI read fixed property names only (\<open>id\<close>, \<open>name\<close>, \<open>mode\<close>, the anchors
  and indices, \<open>unresolved\<close>, \<open>extensions\<close>, \<open>entryGrouping\<close>); no object inherits a
  member of one of these names.
\<close>

fun jsprop :: "jsval \<Rightarrow> string \<Rightarrow> jsval" where
  "jsprop (JObj ps) k = (case map_of ps k of Some v \<Rightarrow> v | None \<Rightarrow> JUndef)"
| "jsprop v k = JUndef"

text \<open>\<open>a || b\<close>.\<close>

definition js_or :: "jsval \<Rightarrow> jsval \<Rightarrow> jsval" where
  "js_or a b = (if truthy a then a else b)"

text \<open>
  \<open>xs[i]\<close> for a number \<open>i\<close> reads the property whose key is \<open>String(i)\<close>.  An array
  has an element under a key only when the key is a decimal numeral without sign, fraction,
  exponent or leading zero (\<open>arrayIndexOf\<close>) that lies inside the array; every other key
  reads \<open>undefined\<close>.
\<close>

definition digitOf :: "char \<Rightarrow> nat option" where
  "digitOf c =
     map_of [(CHR ''0'', 0), (CHR ''1'', 1), (CHR ''2'', 2), (CHR ''3'', 3), (CHR ''4'', 4),
             (CHR ''5'', 5), (CHR ''6'', 6), (CHR ''7'', 7), (CHR ''8'', 8), (CHR ''9'', 9)] c"

fun digitsValue :: "nat \<Rightarrow> string \<Rightarrow> nat option" where
  "digitsValue acc [] = Some acc"
| "digitsValue acc (c # cs) =
     (case digitOf c of None \<Rightarrow> None | Some d \<Rightarrow> digitsValue (10 * acc + d) cs)"

definition arrayIndexOf :: "string \<Rightarrow> nat option" where
  "arrayIndexOf key =
     (case key of
        [] \<Rightarrow> None
      | c # cs \<Rightarrow> if c = CHR ''0'' \<and> cs \<noteq> [] then None else digitsValue 0 key)"

fun js_index :: "jsval list \<Rightarrow> jsval \<Rightarrow> jsval" where
  "js_index xs (JNum s) =
     (case arrayIndexOf s of
        Some i \<Rightarrow> if i < length xs then xs ! i else JUndef
      | None \<Rightarrow> JUndef)"
| "js_index xs v = JUndef"

section \<open>Group record store (lib/prompt-entry-grouping.js)\<close>

definition DEFAULT_GROUP_NAME :: jsval where
  "DEFAULT_GROUP_NAME = JStr [CHR 0xE5, CHR 0x88, CHR 0x86, CHR 0xE7, CHR 0xBB, CHR 0x84]"

definition DEFAULT_MODE :: jsval where
  "DEFAULT_MODE = JStr ''inclusive''"

definition asArray :: "jsval \<Rightarrow> jsval list" where
  "asArray v = (if \<not> truthy v then [] else (case v of JArr xs \<Rightarrow> xs | _ \<Rightarrow> [v]))"

definition isPlainObject :: "jsval \<Rightarrow> bool" where
  "isPlainObject v = (case v of JObj ps \<Rightarrow> True | _ \<Rightarrow> False)"

definition readGroupName :: "jsval \<Rightarrow> jsval" where
  "readGroupName entry = js_or (jsprop entry ''name'') (js_or (jsprop entry ''groupName'') DEFAULT_GROUP_NAME)"

definition isLegacyIndexGrouping :: "jsval \<Rightarrow> bool" where
  "isLegacyIndexGrouping entry \<longleftrightarrow> isNumber (jsprop entry ''startIndex'') \<and> isNumber (jsprop entry ''endIndex'')"

definition isIdentifierAnchorGrouping :: "jsval \<Rightarrow> bool" where
  "isIdentifierAnchorGrouping entry \<longleftrightarrow>
     isString (jsprop entry ''startIdentifier'') \<or> isString (jsprop entry ''endIdentifier'')"

text \<open>
  \<open>createGroupId()\<close> draws a random identifier.  Each normalisation calls it at most once,
  so the identifier it would return is the parameter \<open>newId\<close>;
  \<open>typeof entry.id === 'string' ? entry.id : createGroupId()\<close> is \<open>groupIdOf\<close>.
\<close>

definition groupIdOf :: "string \<Rightarrow> jsval \<Rightarrow> jsval" where
  "groupIdOf newId entry = (if isString (jsprop entry ''id'') then jsprop entry ''id'' else JStr newId)"

text \<open>\<open>Array.isArray(orderedIdentifiers) ? orderedIdentifiers[i] : null\<close>.\<close>

definition identifierAt :: "jsval \<Rightarrow> jsval \<Rightarrow> jsval" where
  "identifierAt orderedIdentifiers i =
     (case orderedIdentifiers of JArr xs \<Rightarrow> js_index xs i | _ \<Rightarrow> JNull)"

definition normalizeForRead :: "string \<Rightarrow> jsval \<Rightarrow> jsval \<Rightarrow> jsval" where
  "normalizeForRead newId entry orderedIdentifiers =
    (if \<not> isPlainObject entry then JNull
     else if isLegacyIndexGrouping entry then
       (let startIdentifier = identifierAt orderedIdentifiers (jsprop entry ''startIndex'');
            endIdentifier = identifierAt orderedIdentifiers (jsprop entry ''endIndex'')
        in if isString startIdentifier \<and> isString endIdentifier then
             JObj [(''id'', groupIdOf newId entry),
                   (''name'', readGroupName entry),
                   (''startIdentifier'', startIdentifier),
                   (''endIdentifier'', endIdentifier),
                   (''mode'', js_or (jsprop entry ''mode'') DEFAULT_MODE)]
           else
             JObj [(''id'', groupIdOf newId entry),
                   (''name'', readGroupName entry),
                   (''mode'', js_or (jsprop entry ''mode'') DEFAULT_MODE),
                   (''unresolved'', JBool True),
                   (''legacyStartIndex'', jsprop entry ''startIndex''),
                   (''legacyEndIndex'', jsprop entry ''endIndex'')])
     else if isIdentifierAnchorGrouping entry then
       (let startIdentifier =
              (if isString (jsprop entry ''startIdentifier'') then jsprop entry ''startIdentifier'' else JNull);
            endIdentifier =
              (if isString (jsprop entry ''endIdentifier'') then jsprop entry ''endIdentifier'' else JNull)
        in if truthy startIdentifier \<and> truthy endIdentifier then
             JObj [(''id'', groupIdOf newId entry),
                   (''name'', readGroupName entry),
                   (''startIdentifier'', startIdentifier),
                   (''endIdentifier'', endIdentifier),
                   (''mode'', js_or (jsprop entry ''mode'') DEFAULT_MODE)]
           else
             JObj [(''id'', groupIdOf newId entry),
                   (''name'', readGroupName entry),
                   (''mode'', js_or (jsprop entry ''mode'') DEFAULT_MODE),
                   (''unresolved'', JBool True),
                   (''legacyStartIndex'', jsprop entry ''legacyStartIndex''),
                   (''legacyEndIndex'', jsprop entry ''legacyEndIndex'')])
     else JNull)"

text \<open>
  The anchor branch of \<open>normalizeForWrite\<close> builds its object step by step: a field is
  added only when its \<open>if\<close> holds.
\<close>

definition normalizeForWrite :: "string \<Rightarrow> jsval \<Rightarrow> jsval \<Rightarrow> jsval" where
  "normalizeForWrite newId entry orderedIdentifiers =
    (if \<not> isPlainObject entry then JNull
     else if isIdentifierAnchorGrouping entry then
       JObj ([(''id'', groupIdOf newId entry),
              (''name'', readGroupName entry),
              (''mode'', js_or (jsprop entry ''mode'') DEFAULT_MODE)]
             @ (if isString (jsprop entry ''startIdentifier'')
                then [(''startIdentifier'', jsprop entry ''startIdentifier'')] else [])
             @ (if isString (jsprop entry ''endIdentifier'')
                then [(''endIdentifier'', jsprop entry ''endIdentifier'')] else [])
             @ (if truthy (jsprop entry ''unresolved'') then [(''unresolved'', JBool True)] else [])
             @ (if isNumber (jsprop entry ''legacyStartIndex'')
                then [(''legacyStartIndex'', jsprop entry ''legacyStartIndex'')] else [])
             @ (if isNumber (jsprop entry ''legacyEndIndex'')
                then [(''legacyEndIndex'', jsprop entry ''legacyEndIndex'')] else []))
     else if isLegacyIndexGrouping entry then
       (let startIdentifier = identifierAt orderedIdentifiers (jsprop entry ''startIndex'');
            endIdentifier = identifierAt orderedIdentifiers (jsprop entry ''endIndex'')
        in if isString startIdentifier \<and> isString endIdentifier then
             JObj [(''id'', groupIdOf newId entry),
                   (''name'', readGroupName entry),
                   (''startIdentifier'', startIdentifier),
                   (''endIdentifier'', endIdentifier),
                   (''mode'', js_or (jsprop entry ''mode'') DEFAULT_MODE)]
           else
             JObj [(''id'', groupIdOf newId entry),
                   (''name'', readGroupName entry),
                   (''mode'', js_or (jsprop entry ''mode'') DEFAULT_MODE),
                   (''unresolved'', JBool True),
                   (''legacyStartIndex'', jsprop entry ''startIndex''),
                   (''legacyEndIndex'', jsprop entry ''endIndex'')])
     else JNull)"

text \<open>
  A list of entries is normalised entry by entry; \<open>newIds i\<close> is the identifier
  \<open>createGroupId()\<close> would return while entry \<open>i\<close> is normalised.  \<open>.filter(Boolean)\<close>
  drops the \<open>null\<close> results.
\<close>

definition getWritableGroupings :: "(nat \<Rightarrow> string) \<Rightarrow> jsval \<Rightarrow> jsval \<Rightarrow> jsval list" where
  "getWritableGroupings newIds rawGroupings orderedIdentifiers =
     filter truthy
       (map (\<lambda>(i, entry). normalizeForWrite (newIds i) entry orderedIdentifiers)
            (enumerate 0 (asArray rawGroupings)))"

subsection \<open>The host's preset manager\<close>

text \<open>
  The store reads and writes presets through the host (\<open>getCurrentApiInfo()\<close>).  Of a
  preset object only \<open>extensions\<close> matters here: it is absent (\<open>None\<close>) or a plain
  object.  The host state holds what the store can observe or change: whether a preset
  manager is available, the preset objects by name (\<open>getCompletionPresetByName\<close>), the
  selected preset name, the live settings object (\<open>getPresetList().settings\<close>), whether
  \<open>savePreset\<close> rejects, and the presets handed to \<open>savePreset\<close> so far.
\<close>

record preset =
  extensions :: "(string \<times> jsval) list option"

record host =
  presetManagerAvailable :: bool
  presetsByName :: "string \<Rightarrow> preset option"
  selectedPresetName :: "string option"
  liveSettings :: jsval
  savePresetFails :: bool
  savedPresets :: "(string \<times> preset) list"

text \<open>\<open>obj.k = v\<close> on the property list of a plain object.\<close>

fun setProp :: "(string \<times> jsval) list \<Rightarrow> string \<Rightarrow> jsval \<Rightarrow> (string \<times> jsval) list" where
  "setProp [] k v = [(k, v)]"
| "setProp (p # ps) k v = (if fst p = k then (k, v) # ps else p # setProp ps k v)"

definition getLoadedPresetName :: "host \<Rightarrow> string option" where
  "getLoadedPresetName h =
     (if \<not> presetManagerAvailable h then None
      else (case selectedPresetName h of
              None \<Rightarrow> None
            | Some n \<Rightarrow> (if n = [] then None else Some n)))"

definition getPreset :: "host \<Rightarrow> string \<Rightarrow> preset option" where
  "getPreset h presetName =
     (if \<not> presetManagerAvailable h then None else presetsByName h presetName)"

definition getAllPresetGroupings :: "(nat \<Rightarrow> string) \<Rightarrow> host \<Rightarrow> string \<Rightarrow> jsval \<Rightarrow> jsval list" where
  "getAllPresetGroupings newIds h presetName orderedIdentifiers =
     (case getPreset h presetName of
        None \<Rightarrow> []
      | Some p \<Rightarrow>
          (case extensions p of
             None \<Rightarrow> []
           | Some ext \<Rightarrow>
               (let grouping = jsprop (JObj ext) ''entryGrouping''
                in if \<not> truthy grouping then []
                   else filter truthy
                          (map (\<lambda>(i, entry). normalizeForRead (newIds i) entry orderedIdentifiers)
                               (enumerate 0 (asArray grouping))))))"

definition syncEntryGroupingToActiveSettings :: "host \<Rightarrow> string \<Rightarrow> jsval list \<Rightarrow> host" where
  "syncEntryGroupingToActiveSettings h presetName groupings =
     (case selectedPresetName h of
        None \<Rightarrow> h
      | Some selected \<Rightarrow>
          (if selected = [] \<or> selected \<noteq> presetName then h
           else (case liveSettings h of
                   JObj ps \<Rightarrow>
                     (let ext = (case jsprop (JObj ps) ''extensions'' of JObj es \<Rightarrow> es | _ \<Rightarrow> [])
                      in h\<lparr>liveSettings :=
                             JObj (setProp ps ''extensions''
                                     (JObj (setProp ext ''entryGrouping'' (JArr groupings))))\<rparr>)
                 | _ \<Rightarrow> h)))"

text \<open>
  \<open>await presetManager.savePreset(name, presetObj, {skipUpdate: true})\<close>, then
  \<open>return true\<close>; a rejection is caught and the function returns \<open>false\<close>.
\<close>

definition savePreset :: "host \<Rightarrow> string \<Rightarrow> preset \<Rightarrow> bool \<times> host" where
  "savePreset h presetName presetObj =
     (if savePresetFails h then (False, h)
      else (True, h\<lparr>savedPresets := savedPresets h @ [(presetName, presetObj)]\<rparr>))"

text \<open>
  The three mutations run inside \<open>try\<close>/\<open>catch\<close>: a \<open>throw\<close> returns \<open>false\<close> and keeps
  whatever was written to the preset object before it.  \<open>presetObj\<close> is the host's own
  object, so \<open>if (!presetObj.extensions) presetObj.extensions = {}\<close> already changes the
  host state (\<open>withExtensions\<close>).
\<close>

definition withExtensions :: "host \<Rightarrow> string \<Rightarrow> preset \<Rightarrow> (string \<times> jsval) list \<times> host" where
  "withExtensions h presetName presetObj =
     (let ext = (case extensions presetObj of None \<Rightarrow> [] | Some e \<Rightarrow> e)
      in (ext, h\<lparr>presetsByName := (presetsByName h)(presetName \<mapsto> presetObj\<lparr>extensions := Some ext\<rparr>)\<rparr>))"

definition storeGroupings :: "host \<Rightarrow> string \<Rightarrow> preset \<Rightarrow> (string \<times> jsval) list \<Rightarrow> jsval list \<Rightarrow> bool \<times> host" where
  "storeGroupings h presetName presetObj ext groupings =
     (let presetObj' = presetObj\<lparr>extensions := Some (setProp ext ''entryGrouping'' (JArr groupings))\<rparr>;
          h1 = h\<lparr>presetsByName := (presetsByName h)(presetName \<mapsto> presetObj')\<rparr>;
          h2 = syncEntryGroupingToActiveSettings h1 presetName groupings
      in savePreset h2 presetName presetObj')"

definition addPresetGrouping ::
  "(nat \<Rightarrow> string) \<Rightarrow> string \<Rightarrow> host \<Rightarrow> string \<Rightarrow> jsval \<Rightarrow> jsval \<Rightarrow> jsval \<Rightarrow> jsval \<Rightarrow> bool \<times> host" where
  "addPresetGrouping newIds newId h presetName startIdentifier endIdentifier groupName orderedIdentifiers =
     (if \<not> isString startIdentifier \<or> \<not> isString endIdentifier then (False, h)
      else if \<not> presetManagerAvailable h then (False, h)
      else (case presetsByName h presetName of
              None \<Rightarrow> (False, h)
            | Some presetObj \<Rightarrow>
                (let (ext, h1) = withExtensions h presetName presetObj;
                     groupings = getWritableGroupings newIds (jsprop (JObj ext) ''entryGrouping'') orderedIdentifiers
                                 @ [JObj [(''id'', JStr newId),
                                          (''name'', js_or groupName DEFAULT_GROUP_NAME),
                                          (''startIdentifier'', startIdentifier),
                                          (''endIdentifier'', endIdentifier),
                                          (''mode'', DEFAULT_MODE)]]
                 in storeGroupings h1 presetName presetObj ext groupings)))"

definition updatePresetGrouping ::
  "(nat \<Rightarrow> string) \<Rightarrow> string \<Rightarrow> host \<Rightarrow> string \<Rightarrow> int \<Rightarrow> jsval \<Rightarrow> jsval \<Rightarrow> jsval \<Rightarrow> jsval \<Rightarrow> bool \<times> host" where
  "updatePresetGrouping newIds newId h presetName groupIndex startIdentifier endIdentifier groupName orderedIdentifiers =
     (if \<not> presetManagerAvailable h then (False, h)
      else (case presetsByName h presetName of
              None \<Rightarrow> (False, h)
            | Some presetObj \<Rightarrow>
                (let (ext, h1) = withExtensions h presetName presetObj;
                     groupings = getWritableGroupings newIds (jsprop (JObj ext) ''entryGrouping'') orderedIdentifiers
                 in if groupIndex < 0 \<or> groupIndex \<ge> int (length groupings) then (False, h1)
                    else
                      (let existing = groupings ! nat groupIndex;
                           updated =
                             JObj [(''id'', js_or (jsprop existing ''id'') (JStr newId)),
                                   (''name'', js_or groupName (js_or (jsprop existing ''name'') DEFAULT_GROUP_NAME)),
                                   (''startIdentifier'',
                                      if isString startIdentifier then startIdentifier
                                      else jsprop existing ''startIdentifier''),
                                   (''endIdentifier'',
                                      if isString endIdentifier then endIdentifier
                                      else jsprop existing ''endIdentifier''),
                                   (''mode'', js_or (jsprop existing ''mode'') DEFAULT_MODE)]
                       in storeGroupings h1 presetName presetObj ext (groupings[nat groupIndex := updated])))))"

definition removePresetGrouping ::
  "(nat \<Rightarrow> string) \<Rightarrow> host \<Rightarrow> string \<Rightarrow> int \<Rightarrow> jsval \<Rightarrow> bool \<times> host" where
  "removePresetGrouping newIds h presetName groupIndex orderedIdentifiers =
     (if \<not> presetManagerAvailable h then (False, h)
      else (case presetsByName h presetName of
              None \<Rightarrow> (False, h)
            | Some presetObj \<Rightarrow>
                (let (ext, h1) = withExtensions h presetName presetObj;
                     groupings = getWritableGroupings newIds (jsprop (JObj ext) ''entryGrouping'') orderedIdentifiers
                 in if groupIndex < 0 \<or> groupIndex \<ge> int (length groupings) then (False, h1)
                    else storeGroupings h1 presetName presetObj ext
                           (take (nat groupIndex) groupings @ drop (Suc (nat groupIndex)) groupings))))"

text \<open>
  The stored grouping container of a preset: \<open>preset.extensions?.entryGrouping\<close>, the
  value every read and every mutation starts from.
\<close>

definition storedGrouping :: "host \<Rightarrow> string \<Rightarrow> jsval" where
  "storedGrouping h presetName =
     (case presetsByName h presetName of
        None \<Rightarrow> JUndef
      | Some p \<Rightarrow> (case extensions p of None \<Rightarrow> JUndef | Some ext \<Rightarrow> jsprop (JObj ext) ''entryGrouping''))"

section \<open>Prompt-entry grouping UI (lib/entry-grouping-ui.js)\<close>

subsection \<open>String conversion and the grouping signature\<close>

fun joinWith :: "string \<Rightarrow> string list \<Rightarrow> string" where
  "joinWith sep [] = []"
| "joinWith sep [x] = x"
| "joinWith sep (x # y # ys) = x @ sep @ joinWith sep (y # ys)"

text \<open>
  \<open>String(v)\<close>.  A number is kept as this very string.  An array renders as its
  elements joined by commas, \<open>null\<close> and \<open>undefined\<close> elements as the empty string.
\<close>

fun js_String :: "jsval \<Rightarrow> string" where
  "js_String JUndef = ''undefined''"
| "js_String JNull = ''null''"
| "js_String (JBool b) = (if b then ''true'' else ''false'')"
| "js_String (JNum s) = s"
| "js_String (JStr s) = s"
| "js_String (JArr xs) =
     joinWith '','' (map (\<lambda>x. if x = JUndef \<or> x = JNull then [] else js_String x) xs)"
| "js_String (JObj ps) = ''[object Object]''"

text \<open>An element of an array under \<open>join\<close>; \<open>v ?? ''\<close> gives the same string.\<close>

definition joinElem :: "jsval \<Rightarrow> string" where
  "joinElem v = (if v = JUndef \<or> v = JNull then [] else js_String v)"

text \<open>The array built and joined for one grouping inside \<open>computeGroupingSignature\<close>.\<close>

definition groupingSignatureRow :: "jsval \<Rightarrow> string" where
  "groupingSignatureRow g =
     joinWith [CHR 0x1E]
       [joinElem (jsprop g ''name''),
        joinElem (jsprop g ''startIdentifier''),
        joinElem (jsprop g ''endIdentifier''),
        joinElem (jsprop g ''mode''),
        (if truthy (jsprop g ''unresolved'') then ''1'' else ''0''),
        (if isNumber (jsprop g ''legacyStartIndex'')
         then js_String (jsprop g ''legacyStartIndex'') else []),
        (if isNumber (jsprop g ''legacyEndIndex'')
         then js_String (jsprop g ''legacyEndIndex'') else [])]"

definition computeGroupingSignature :: "string \<Rightarrow> string list \<Rightarrow> jsval list \<Rightarrow> string" where
  "computeGroupingSignature presetName orderedIdentifiers groupings =
     (let listKey = joinWith [CHR 0x1F] orderedIdentifiers;
          groupingKey = joinWith [CHR 0x1D] (map groupingSignatureRow groupings)
      in presetName @ [CHR 0x1C] @ listKey @ [CHR 0x1C] @ groupingKey)"

subsection \<open>The list in the page and the module state\<close>

text \<open>
  The prompt list is the element \<open>findListContainer()\<close> finds, if any: its node identity,
  the \<open>data-pm-identifier\<close> attribute of every \<open>li[data-pm-identifier]\<close> in document
  order, and the group headers (\<open>.peg-group-header\<close>) present.  Of a header the model
  keeps the name it shows, the \<open>group-index\<close> data and the total its count label was given
  when it was built (\<open>groupItems.length\<close>).  Which items a wrapper holds is not kept:
  \<open>wrapAll\<close> takes an item out of the wrapper of an overlapping group built before.
  Wrapping and unwrapping list items moves no item past another, so \<open>itemIds\<close> is the
  same before and after.  The remembered expand state of a group, theme variables and click
  bindings are presentation only and are left out.
\<close>

record group_ui =
  headerName :: jsval
  groupIndex :: nat
  totalCount :: nat

record list_view =
  listNode :: nat
  itemIds :: "string list"
  groupHeaders :: "group_ui list"

text \<open>
  The module variables of the UI, with what a pass does to the page and to the user:
  \<open>warnings\<close> are the counts shown by \<open>toastr.warning\<close>, \<open>retryTimers\<close> the delays of the
  \<open>setTimeout(() => scheduleApplyGrouping(0), delay)\<close> calls.
\<close>

record ui =
  entryGroupingEnabled :: bool
  isApplyingGrouping :: bool
  lastAppliedGroupingSignature :: "string option"
  lastAppliedGroupingPreset :: "string option"
  lastAppliedGroupingListNode :: "nat option"
  zeroResolvedRetryPreset :: "string option"
  zeroResolvedRetryCount :: nat
  listContainer :: "list_view option"
  toastrAvailable :: bool
  warnings :: "nat list"
  retryTimers :: "nat list"

definition orderedIdentifiersOf :: "string list \<Rightarrow> string list" where
  "orderedIdentifiersOf attrs = filter (\<lambda>a. a \<noteq> []) attrs"

definition getOrderedIdentifiersFromList :: "ui \<Rightarrow> string list" where
  "getOrderedIdentifiersFromList u =
     (case listContainer u of None \<Rightarrow> [] | Some lc \<Rightarrow> orderedIdentifiersOf (itemIds lc))"

definition hasGroupingUi :: "list_view \<Rightarrow> bool" where
  "hasGroupingUi lc \<longleftrightarrow> groupHeaders lc \<noteq> []"

definition cleanupGroupingUi :: "list_view \<Rightarrow> list_view" where
  "cleanupGroupingUi lc = lc\<lparr>groupHeaders := []\<rparr>"

subsection \<open>Resolving anchors\<close>

text \<open>\<open>xs.indexOf(x)\<close>: the first position, \<open>None\<close> for \<open>-1\<close>.\<close>

fun indexOf :: "'a list \<Rightarrow> 'a \<Rightarrow> nat option" where
  "indexOf [] x = None"
| "indexOf (y # ys) x = (if y = x then Some 0 else map_option Suc (indexOf ys x))"

text \<open>A value that is not a string is \<open>===\<close> to no identifier.\<close>

definition indexOfVal :: "string list \<Rightarrow> jsval \<Rightarrow> nat option" where
  "indexOfVal xs v = (case v of JStr s \<Rightarrow> indexOf xs s | _ \<Rightarrow> None)"

text \<open>The body of the loop over the groupings in \<open>getGroupedIdentifierSet\<close>.\<close>

definition addGroupMembers :: "string list \<Rightarrow> string set \<Rightarrow> jsval \<Rightarrow> string set" where
  "addGroupMembers orderedIdentifiers grouped g =
     (if truthy (jsprop g ''unresolved'') then grouped
      else if \<not> isString (jsprop g ''startIdentifier'') \<or> \<not> isString (jsprop g ''endIdentifier'')
      then grouped
      else (case indexOfVal orderedIdentifiers (jsprop g ''startIdentifier'') of
              None \<Rightarrow> grouped
            | Some startIndex \<Rightarrow>
                (case indexOfVal orderedIdentifiers (jsprop g ''endIdentifier'') of
                   None \<Rightarrow> grouped
                 | Some endIndex \<Rightarrow>
                     foldl (\<lambda>acc i. let ident = orderedIdentifiers ! i
                                     in if ident \<noteq> [] then insert ident acc else acc)
                           grouped
                           [min startIndex endIndex ..< Suc (max startIndex endIndex)])))"

definition getGroupedIdentifierSet :: "(nat \<Rightarrow> string) \<Rightarrow> host \<Rightarrow> string \<Rightarrow> string list \<Rightarrow> string set" where
  "getGroupedIdentifierSet newIds h presetName orderedIdentifiers =
     foldl (addGroupMembers orderedIdentifiers) {}
       (getAllPresetGroupings newIds h presetName (JArr (map JStr orderedIdentifiers)))"

text \<open>
  \<open>resolvedGroupings\<close> in \<open>applyGroupingToList\<close>: the record \<open>{...g, originalIndex,
  startIndex, endIndex}\<close> of every grouping that is not flagged unresolved and whose two
  anchors are found, sorted (stably) by descending first position.
\<close>

record resolved_grouping =
  grouping :: jsval
  originalIndex :: nat
  startIndex :: nat
  endIndex :: nat

definition resolveGroupings :: "jsval list \<Rightarrow> string list \<Rightarrow> resolved_grouping list" where
  "resolveGroupings groupings orderedIdentifiers =
     sort_key (\<lambda>r. - int (min (startIndex r) (endIndex r)))
       (List.map_filter
          (\<lambda>(index, g).
             (case indexOfVal orderedIdentifiers (jsprop g ''startIdentifier'') of
                None \<Rightarrow> None
              | Some si \<Rightarrow>
                  (case indexOfVal orderedIdentifiers (jsprop g ''endIdentifier'') of
                     None \<Rightarrow> None
                   | Some ei \<Rightarrow>
                       Some \<lparr>grouping = g, originalIndex = index, startIndex = si, endIndex = ei\<rparr>)))
          (filter (\<lambda>(index, g). \<not> truthy (jsprop g ''unresolved'')
                                \<and> isString (jsprop g ''startIdentifier'')
                                \<and> isString (jsprop g ''endIdentifier''))
                  (enumerate 0 groupings)))"

subsection \<open>The reconciliation pass\<close>

definition createGroupUI :: "list_view \<Rightarrow> string list \<Rightarrow> jsval \<Rightarrow> nat \<Rightarrow> list_view" where
  "createGroupUI lc items g index =
     lc\<lparr>groupHeaders := groupHeaders lc @
          [\<lparr>headerName = js_or (jsprop g ''name'') DEFAULT_GROUP_NAME,
            groupIndex = index, totalCount = length items\<rparr>]\<rparr>"

text \<open>
  \<open>applyGroupingToList\<close> returns nothing; the model returns which of its \<open>return\<close>
  statements ended the pass, in source order.
\<close>

datatype outcome =
    NotRun
  | NoItems
  | DuplicateIdentifiers
  | NoGroupings
  | Skipped
  | NoItemsAfterCleanup
  | DuplicateAfterCleanup
  | NoGroupingsAfterCleanup
  | ZeroResolved
  | Rebuilt

text \<open>
  Three blocks of the pass: the warning about groups flagged unresolved, the zero-resolved
  retry under \<open>if (resolvedGroupings.length === 0)\<close>, and the loop that creates the
  group UI of every resolved grouping (\<open>items\<close> are the attributes of the list items).
\<close>

definition warnUnresolved :: "jsval list \<Rightarrow> ui \<Rightarrow> ui" where
  "warnUnresolved groupings u =
     (let unresolvedCount = length (filter (\<lambda>g. truthy (jsprop g ''unresolved'')) groupings)
      in if unresolvedCount \<noteq> 0 \<and> toastrAvailable u
         then u\<lparr>warnings := warnings u @ [unresolvedCount]\<rparr> else u)"

definition zeroResolvedRetry :: "string \<Rightarrow> ui \<Rightarrow> ui" where
  "zeroResolvedRetry presetName u =
     (let u1 = (if zeroResolvedRetryPreset u \<noteq> Some presetName
                then u\<lparr>zeroResolvedRetryPreset := Some presetName, zeroResolvedRetryCount := 0\<rparr>
                else u)
      in if zeroResolvedRetryCount u1 < 3
         then u1\<lparr>zeroResolvedRetryCount := zeroResolvedRetryCount u1 + 1,
                 retryTimers := retryTimers u1 @ [450, 1200]\<rparr>
         else u1)"

definition createGroupUis :: "string list \<Rightarrow> list_view \<Rightarrow> resolved_grouping list \<Rightarrow> list_view" where
  "createGroupUis items lc resolvedGroupings =
     foldl (\<lambda>l r. let start = min (startIndex r) (endIndex r);
                      stop = max (startIndex r) (endIndex r)
                  in if stop \<ge> length items then l
                     else createGroupUI l (take (Suc stop - start) (drop start items))
                            (grouping r) (originalIndex r))
           lc resolvedGroupings"

text \<open>
  The pass from \<open>cleanupGroupingUi(listContainer)\<close> on.  \<open>u\<close> already has
  \<open>isApplyingGrouping\<close> set, \<open>lc\<close> is the list container, \<open>signature\<close> the signature
  computed before the gate.
\<close>

definition rebuildGroupingUi ::
  "(nat \<Rightarrow> string) \<Rightarrow> host \<Rightarrow> string \<Rightarrow> string \<Rightarrow> list_view \<Rightarrow> ui \<Rightarrow> outcome \<times> ui" where
  "rebuildGroupingUi newIds h presetName signature lc u =
     (let lc1 = cleanupGroupingUi lc;
          u1 = u\<lparr>listContainer := Some lc1\<rparr>;
          items = itemIds lc1
      in if items = [] then (NoItemsAfterCleanup, u1)
         else
          (let orderedIdentifiers = orderedIdentifiersOf items
           in if \<not> distinct orderedIdentifiers then (DuplicateAfterCleanup, u1)
              else
               (let groupings = getAllPresetGroupings newIds h presetName (JArr (map JStr orderedIdentifiers))
                in if groupings = [] then (NoGroupingsAfterCleanup, u1)
                   else
                    (let u2 = warnUnresolved groupings u1;
                         resolvedGroupings = resolveGroupings groupings orderedIdentifiers
                     in if resolvedGroupings = [] then (ZeroResolved, zeroResolvedRetry presetName u2)
                        else
                          (Rebuilt,
                           u2\<lparr>zeroResolvedRetryPreset := None,
                              zeroResolvedRetryCount := 0,
                              listContainer := Some (createGroupUis items lc1 resolvedGroupings),
                              lastAppliedGroupingSignature := Some signature,
                              lastAppliedGroupingPreset := Some presetName,
                              lastAppliedGroupingListNode := Some (listNode lc)\<rparr>)))))"

text \<open>
  The two reads of the groupings in one pass each draw their own fresh identifiers
  (\<open>newIds\<close>, \<open>newIds'\<close>).  The flag \<open>isApplyingGrouping\<close> set at the start is cleared by
  a zero-delay timer after the pass, so it is still set when the pass returns.
\<close>

definition applyGroupingToList ::
  "(nat \<Rightarrow> string) \<Rightarrow> (nat \<Rightarrow> string) \<Rightarrow> host \<Rightarrow> ui \<Rightarrow> outcome \<times> ui" where
  "applyGroupingToList newIds newIds' h u =
     (if \<not> entryGroupingEnabled u then (NotRun, u)
      else (case getLoadedPresetName h of
              None \<Rightarrow> (NotRun, u)
            | Some presetName \<Rightarrow>
                (case listContainer u of
                   None \<Rightarrow> (NotRun, u)
                 | Some lc \<Rightarrow>
                     (let u0 = u\<lparr>isApplyingGrouping := True\<rparr>;
                          groupingUiExists = hasGroupingUi lc;
                          preItems = itemIds lc
                      in if preItems = [] then (NoItems, u0)
                         else
                          (let preOrderedIdentifiers = orderedIdentifiersOf preItems
                           in if \<not> distinct preOrderedIdentifiers then (DuplicateIdentifiers, u0)
                              else
                               (let preGroupings = getAllPresetGroupings newIds h presetName
                                                     (JArr (map JStr preOrderedIdentifiers));
                                    signature = computeGroupingSignature presetName preOrderedIdentifiers preGroupings
                                in if preGroupings = [] then
                                     (NoGroupings,
                                      u0\<lparr>listContainer :=
                                            Some (if groupingUiExists then cleanupGroupingUi lc else lc),
                                         lastAppliedGroupingSignature := Some signature,
                                         lastAppliedGroupingPreset := Some presetName,
                                         lastAppliedGroupingListNode := Some (listNode lc)\<rparr>)
                                   else if groupingUiExists
                                           \<and> lastAppliedGroupingSignature u0 = Some signature
                                           \<and> lastAppliedGroupingPreset u0 = Some presetName
                                           \<and> lastAppliedGroupingListNode u0 = Some (listNode lc)
                                   then (Skipped, u0)
                                   else rebuildGroupingUi newIds' h presetName signature lc u0))))))"

section \<open>World-info groups (SillyTavern-WorldInfo-Groups/index.js)\<close>
















section \<open>Shapes of group records\<close>

text \<open>
  A record is resolved when both anchors are strings, and flagged when it carries
  \<open>unresolved: true\<close>.
\<close>

definition isResolvedRecord :: "jsval \<Rightarrow> bool" where
  "isResolvedRecord r \<longleftrightarrow> isString (jsprop r ''startIdentifier'') \<and> isString (jsprop r ''endIdentifier'')"

definition isFlaggedUnresolved :: "jsval \<Rightarrow> bool" where
  "isFlaggedUnresolved r \<longleftrightarrow> jsprop r ''unresolved'' = JBool True"

section \<open>Example states\<close>

text \<open>
  The end-to-end scenario: a host with two presets P and Q without groups, P selected,
  the group Intro created in P from the anchors p2 and p3 while the list shows p1 to p4
  (\<open>scenarioAfterAdd\<close>), and the list after the host lost p2 (\<open>scenarioUi\<close>).
  \<open>noIds\<close> is an identifier source that is never consulted in these states.
\<close>

definition noIds :: "nat \<Rightarrow> string" where
  "noIds i = []"

definition scenarioHost :: host where
  "scenarioHost =
     \<lparr>presetManagerAvailable = True,
      presetsByName = (\<lambda>n. if n = ''P'' \<or> n = ''Q'' then Some \<lparr>extensions = None\<rparr> else None),
      selectedPresetName = Some ''P'',
      liveSettings = JObj [],
      savePresetFails = False,
      savedPresets = []\<rparr>"

definition scenarioAfterAdd :: "string \<Rightarrow> host" where
  "scenarioAfterAdd newId =
     snd (addPresetGrouping noIds newId scenarioHost ''P'' (JStr ''p2'') (JStr ''p3'') (JStr ''Intro'')
            (JArr [JStr ''p1'', JStr ''p2'', JStr ''p3'', JStr ''p4'']))"

definition introRecord :: "string \<Rightarrow> jsval" where
  "introRecord newId =
     JObj [(''id'', JStr newId), (''name'', JStr ''Intro''),
           (''startIdentifier'', JStr ''p2''), (''endIdentifier'', JStr ''p3''),
           (''mode'', JStr ''inclusive'')]"

definition scenarioUi :: ui where
  "scenarioUi =
     \<lparr>entryGroupingEnabled = True, isApplyingGrouping = False,
      lastAppliedGroupingSignature = None, lastAppliedGroupingPreset = None,
      lastAppliedGroupingListNode = None,
      zeroResolvedRetryPreset = None, zeroResolvedRetryCount = 0,
      listContainer = Some \<lparr>listNode = 0, itemIds = [''p1'', ''p3'', ''p4''], groupHeaders = []\<rparr>,
      toastrAvailable = True, warnings = [], retryTimers = []\<rparr>"

text \<open>A host whose preset Q stores one resolved group over the entries a to c.\<close>

definition storedRecord :: jsval where
  "storedRecord =
     JObj [(''id'', JStr ''g1''), (''name'', JStr ''Lore''),
           (''startIdentifier'', JStr ''a''), (''endIdentifier'', JStr ''c''),
           (''mode'', JStr ''inclusive'')]"

definition storedHost :: host where
  "storedHost =
     \<lparr>presetManagerAvailable = True,
      presetsByName = (\<lambda>n. if n = ''Q''
                            then Some \<lparr>extensions = Some [(''entryGrouping'', JArr [storedRecord])]\<rparr>
                            else None),
      selectedPresetName = Some ''Q'',
      liveSettings = JObj [],
      savePresetFails = False,
      savedPresets = []\<rparr>"

definition storedKeys :: jsval where
  "storedKeys = JArr [JStr ''a'', JStr ''b'', JStr ''c'']"

definition storedUi :: ui where
  "storedUi =
     \<lparr>entryGroupingEnabled = True, isApplyingGrouping = False,
      lastAppliedGroupingSignature = None, lastAppliedGroupingPreset = None,
      lastAppliedGroupingListNode = None,
      zeroResolvedRetryPreset = None, zeroResolvedRetryCount = 0,
      listContainer = Some \<lparr>listNode = 7, itemIds = [''a'', ''b'', ''c''], groupHeaders = []\<rparr>,
      toastrAvailable = True, warnings = [], retryTimers = []\<rparr>"

text \<open>
  The prompt list of \<open>storedUi\<close> after one reconciliation pass under the preset Q.
\<close>

definition appliedUi :: ui where
  "appliedUi = snd (applyGroupingToList noIds noIds storedHost storedUi)"

text \<open>
  Retry states of the scenario: the user interface after three passes in a row that
  resolved no group under the preset P (\<open>exhaustedUi\<close>), the same host with the preset
  Q selected, which has no groups (\<open>otherPresetHost\<close>), and the user interface after a
  pass under Q (\<open>awayUi\<close>).
\<close>

definition exhaustedUi :: ui where
  "exhaustedUi =
     snd (applyGroupingToList noIds noIds (scenarioAfterAdd ''g1'')
       (snd (applyGroupingToList noIds noIds (scenarioAfterAdd ''g1'')
         (snd (applyGroupingToList noIds noIds (scenarioAfterAdd ''g1'') scenarioUi)))))"

definition otherPresetHost :: host where
  "otherPresetHost = (scenarioAfterAdd ''g1'')\<lparr>selectedPresetName := Some ''Q''\<rparr>"

definition awayUi :: ui where
  "awayUi = snd (applyGroupingToList noIds noIds otherPresetHost exhaustedUi)"



text \<open>
  Two resolved records: one with nothing but its anchors, one whose start anchor is the
  empty string, with a key list that holds both of its anchors.
\<close>

definition bareRecord :: jsval where
  "bareRecord = JObj [(''startIdentifier'', JStr ''a''), (''endIdentifier'', JStr ''c'')]"

definition emptyAnchorRecord :: jsval where
  "emptyAnchorRecord =
     JObj [(''id'', JStr ''g1''), (''name'', JStr ''Lore''),
           (''startIdentifier'', JStr []), (''endIdentifier'', JStr ''c''),
           (''mode'', JStr ''inclusive'')]"

definition emptyAnchorKeys :: jsval where
  "emptyAnchorKeys = JArr [JStr [], JStr ''b'', JStr ''c'']"

text \<open>The stored group with its two anchors exchanged.\<close>

definition swappedRecord :: jsval where
  "swappedRecord =
     JObj [(''id'', JStr ''g1''), (''name'', JStr ''Lore''),
           (''startIdentifier'', JStr ''c''), (''endIdentifier'', JStr ''a''),
           (''mode'', JStr ''inclusive'')]"

section \<open>Legacy migration\<close>

text \<open>
  C4.  Read against the keys a, b, c, d, the stored record with startIndex 1 and endIndex 3
  becomes a resolved record anchored at b and d (with the default name and mode and a fresh
  id).  Read against the single key a, both indices are out of range and the record comes
  back flagged unresolved, with the two indices kept as legacyStartIndex 1 and
  legacyEndIndex 3.
\<close>

theorem legacy_migration_on_read:
  "normalizeForRead newId (JObj [(''startIndex'', JNum ''1''), (''endIndex'', JNum ''3'')])
       (JArr [JStr ''a'', JStr ''b'', JStr ''c'', JStr ''d''])
     = JObj [(''id'', JStr newId), (''name'', DEFAULT_GROUP_NAME),
             (''startIdentifier'', JStr ''b''), (''endIdentifier'', JStr ''d''),
             (''mode'', JStr ''inclusive'')]
   \<and> normalizeForRead newId (JObj [(''startIndex'', JNum ''1''), (''endIndex'', JNum ''3'')])
       (JArr [JStr ''a''])
     = JObj [(''id'', JStr newId), (''name'', DEFAULT_GROUP_NAME), (''mode'', JStr ''inclusive''),
             (''unresolved'', JBool True),
             (''legacyStartIndex'', JNum ''1''), (''legacyEndIndex'', JNum ''3'')]"
  by (simp add: normalizeForRead_def isPlainObject_def isLegacyIndexGrouping_def identifierAt_def
      arrayIndexOf_def digitOf_def groupIdOf_def readGroupName_def js_or_def DEFAULT_MODE_def
      DEFAULT_GROUP_NAME_def)

section \<open>Helper facts about the store\<close>

lemma orderedIdentifiers_nonempty: "s \<in> set (getOrderedIdentifiersFromList u) \<Longrightarrow> s \<noteq> []"
  by (auto simp: getOrderedIdentifiersFromList_def orderedIdentifiersOf_def split: option.splits)

lemma read_anchor_record:
  assumes "isPlainObject w" "\<not> isLegacyIndexGrouping w"
    and "jsprop w ''startIdentifier'' = JStr s" "jsprop w ''endIdentifier'' = JStr e"
    and "s \<noteq> []" "e \<noteq> []"
  shows "normalizeForRead newId w keys =
           JObj [(''id'', groupIdOf newId w), (''name'', readGroupName w),
                 (''startIdentifier'', JStr s), (''endIdentifier'', JStr e),
                 (''mode'', js_or (jsprop w ''mode'') DEFAULT_MODE)]"
  using assms by (simp add: normalizeForRead_def isIdentifierAnchorGrouping_def)

lemma write_anchor_record:
  assumes "isPlainObject r" "isIdentifierAnchorGrouping r"
  shows "normalizeForWrite newId r keys =
      JObj ([(''id'', groupIdOf newId r), (''name'', readGroupName r),
             (''mode'', js_or (jsprop r ''mode'') DEFAULT_MODE)]
            @ (if isString (jsprop r ''startIdentifier'')
               then [(''startIdentifier'', jsprop r ''startIdentifier'')] else [])
            @ (if isString (jsprop r ''endIdentifier'')
               then [(''endIdentifier'', jsprop r ''endIdentifier'')] else [])
            @ (if truthy (jsprop r ''unresolved'') then [(''unresolved'', JBool True)] else [])
            @ (if isNumber (jsprop r ''legacyStartIndex'')
                then [(''legacyStartIndex'', jsprop r ''legacyStartIndex'')] else [])
            @ (if isNumber (jsprop r ''legacyEndIndex'')
                then [(''legacyEndIndex'', jsprop r ''legacyEndIndex'')] else []))"
  using assms by (simp add: normalizeForWrite_def)

lemma withExtensions_stored:
  "presetsByName h presetName = Some presetObj \<Longrightarrow>
   storedGrouping (snd (withExtensions h presetName presetObj)) p = storedGrouping h p"
  by (simp add: withExtensions_def storedGrouping_def split: option.splits)

lemma withExtensions_fields:
  "liveSettings (snd (withExtensions h presetName presetObj)) = liveSettings h"
  "savedPresets (snd (withExtensions h presetName presetObj)) = savedPresets h"
  by (simp_all add: withExtensions_def Let_def)

lemma withExtensions_grouping:
  "presetsByName h presetName = Some presetObj \<Longrightarrow>
   jsprop (JObj (fst (withExtensions h presetName presetObj))) ''entryGrouping'' = storedGrouping h presetName"
  by (simp add: withExtensions_def storedGrouping_def split: option.splits)

lemma scenario_after_add:
  "scenarioAfterAdd newId = scenarioHost\<lparr>
      presetsByName := (presetsByName scenarioHost)
         (''P'' \<mapsto> \<lparr>extensions = Some [(''entryGrouping'', JArr [introRecord newId])]\<rparr>),
      liveSettings := JObj [(''extensions'', JObj [(''entryGrouping'', JArr [introRecord newId])])],
      savedPresets := [(''P'', \<lparr>extensions = Some [(''entryGrouping'', JArr [introRecord newId])]\<rparr>)]\<rparr>"
  by (simp add: scenarioAfterAdd_def addPresetGrouping_def scenarioHost_def withExtensions_def
      getWritableGroupings_def asArray_def storeGroupings_def syncEntryGroupingToActiveSettings_def
      savePreset_def introRecord_def js_or_def DEFAULT_MODE_def Let_def)

lemma scenario_reread:
  "getAllPresetGroupings newIds (scenarioAfterAdd newId) ''P'' (JArr [JStr ''p1'', JStr ''p3'', JStr ''p4''])
     = [introRecord newId]"
  by (simp add: scenario_after_add getAllPresetGroupings_def getPreset_def scenarioHost_def asArray_def
      normalizeForRead_def isPlainObject_def isLegacyIndexGrouping_def isIdentifierAnchorGrouping_def
      introRecord_def groupIdOf_def readGroupName_def js_or_def)

lemma scenario_pass:
  "applyGroupingToList newIds newIds' (scenarioAfterAdd newId) scenarioUi
     = (ZeroResolved,
        scenarioUi\<lparr>isApplyingGrouping := True, zeroResolvedRetryPreset := Some ''P'',
                   zeroResolvedRetryCount := 1, retryTimers := [450, 1200]\<rparr>)"
proof -
  have l: "getLoadedPresetName (scenarioAfterAdd newId) = Some ''P''"
    by (simp add: scenario_after_add getLoadedPresetName_def scenarioHost_def)
  have r: "resolveGroupings [introRecord newId] [''p1'', ''p3'', ''p4''] = []"
    by (simp add: resolveGroupings_def introRecord_def indexOfVal_def)
  have f: "\<not> truthy (jsprop (introRecord newId) ''unresolved'')"
    by (simp add: introRecord_def)
  show ?thesis
    by (simp add: applyGroupingToList_def l scenarioUi_def orderedIdentifiersOf_def scenario_reread
        rebuildGroupingUi_def cleanupGroupingUi_def hasGroupingUi_def warnUnresolved_def
        zeroResolvedRetry_def r f Let_def)
qed

section \<open>End-to-end scenario\<close>

text \<open>
  C1, as claimed: after p2 is deleted, reading the groupings of the preset against the keys
  p1, p3, p4 yields the record flagged unresolved, and the pass warns about 1 unresolved
  group.  The code does neither.  The record read back is the stored anchor record, not
  flagged, and the reconciliation pass over that list shows no warning at all.
\<close>

theorem scenario_record_not_flagged:
  "getAllPresetGroupings noIds (scenarioAfterAdd ''g1'') ''P'' (JArr [JStr ''p1'', JStr ''p3'', JStr ''p4''])
     = [introRecord ''g1'']
   \<and> \<not> isFlaggedUnresolved (introRecord ''g1'')
   \<and> warnings (snd (applyGroupingToList noIds noIds (scenarioAfterAdd ''g1'') scenarioUi)) \<noteq> [1]"
proof -
  have "warnings scenarioUi = []" by (simp add: scenarioUi_def)
  then show ?thesis
    by (simp add: scenario_reread scenario_pass isFlaggedUnresolved_def introRecord_def)
qed

text \<open>
  C1, amended.  An anchor record is read without looking its anchors up in the key list:
  after p2 is deleted the group comes back as stored, with both anchors p2 and p3 and no
  unresolved flag, whatever identifiers are drawn.  The reconciliation pass over the list
  p1, p3, p4 then finds no position for p2, resolves no group, shows no unresolved-group
  warning (the count of flagged records is 0) and schedules the zero-resolved retry.
\<close>

theorem scenario_after_delete:
  "getAllPresetGroupings newIds (scenarioAfterAdd newId) ''P'' (JArr [JStr ''p1'', JStr ''p3'', JStr ''p4''])
     = [JObj [(''id'', JStr newId), (''name'', JStr ''Intro''),
              (''startIdentifier'', JStr ''p2''), (''endIdentifier'', JStr ''p3''),
              (''mode'', JStr ''inclusive'')]]
   \<and> length (filter (\<lambda>g. truthy (jsprop g ''unresolved''))
         (getAllPresetGroupings newIds (scenarioAfterAdd newId) ''P''
            (JArr [JStr ''p1'', JStr ''p3'', JStr ''p4'']))) = 0
   \<and> fst (applyGroupingToList newIds newIds' (scenarioAfterAdd newId) scenarioUi) = ZeroResolved
   \<and> warnings (snd (applyGroupingToList newIds newIds' (scenarioAfterAdd newId) scenarioUi)) = []
   \<and> retryTimers (snd (applyGroupingToList newIds newIds' (scenarioAfterAdd newId) scenarioUi)) = [450, 1200]"
proof -
  have "warnings scenarioUi = []" by (simp add: scenarioUi_def)
  then show ?thesis
    by (simp add: scenario_reread scenario_pass introRecord_def)
qed

section \<open>Resolved or flagged\<close>

text \<open>
  C2, as claimed: no record produced by either normalisation has fewer than two string
  anchors without the unresolved flag.  \<open>normalizeForWrite\<close> breaks this: an anchor entry
  with only a start anchor and no mark is written back with that one anchor and no flag.
\<close>

theorem write_keeps_single_anchor_unflagged:
  "normalizeForWrite ''g1'' (JObj [(''startIdentifier'', JStr ''a'')]) (JArr [JStr ''a''])
     = JObj [(''id'', JStr ''g1''), (''name'', DEFAULT_GROUP_NAME), (''mode'', DEFAULT_MODE),
             (''startIdentifier'', JStr ''a'')]
   \<and> \<not> isResolvedRecord (normalizeForWrite ''g1'' (JObj [(''startIdentifier'', JStr ''a'')]) (JArr [JStr ''a'']))
   \<and> \<not> isFlaggedUnresolved (normalizeForWrite ''g1'' (JObj [(''startIdentifier'', JStr ''a'')]) (JArr [JStr ''a'']))"
  by (simp add: normalizeForWrite_def isPlainObject_def isIdentifierAnchorGrouping_def groupIdOf_def
      readGroupName_def js_or_def isResolvedRecord_def isFlaggedUnresolved_def)

text \<open>
  C2, amended.  Every record produced by \<open>normalizeForRead\<close> is resolved (both anchors
  strings) or carries unresolved: true together with the legacy indices of the entry.
  Every record produced by \<open>normalizeForWrite\<close> from an entry without a string anchor
  is resolved or flagged in the same way.  A record produced by \<open>normalizeForWrite\<close>
  from an anchor entry keeps exactly the string anchors of the entry, at least one, keeps
  its numeric legacy indices, and carries unresolved: true exactly when the entry was
  already marked.
\<close>

theorem normalized_record_resolved_or_flagged:
  "(normalizeForRead newId entry oi \<noteq> JNull \<longrightarrow>
      isResolvedRecord (normalizeForRead newId entry oi)
      \<or> (isFlaggedUnresolved (normalizeForRead newId entry oi)
         \<and> jsprop (normalizeForRead newId entry oi) ''legacyStartIndex''
             = (if isLegacyIndexGrouping entry then jsprop entry ''startIndex''
                else jsprop entry ''legacyStartIndex'')
         \<and> jsprop (normalizeForRead newId entry oi) ''legacyEndIndex''
             = (if isLegacyIndexGrouping entry then jsprop entry ''endIndex''
                else jsprop entry ''legacyEndIndex'')))
   \<and> (normalizeForWrite newId entry oi \<noteq> JNull \<longrightarrow>
      (if isIdentifierAnchorGrouping entry
       then jsprop (normalizeForWrite newId entry oi) ''startIdentifier''
              = (if isString (jsprop entry ''startIdentifier'') then jsprop entry ''startIdentifier'' else JUndef)
          \<and> jsprop (normalizeForWrite newId entry oi) ''endIdentifier''
              = (if isString (jsprop entry ''endIdentifier'') then jsprop entry ''endIdentifier'' else JUndef)
          \<and> (isString (jsprop (normalizeForWrite newId entry oi) ''startIdentifier'')
               \<or> isString (jsprop (normalizeForWrite newId entry oi) ''endIdentifier''))
          \<and> (isFlaggedUnresolved (normalizeForWrite newId entry oi) \<longleftrightarrow> truthy (jsprop entry ''unresolved''))
          \<and> jsprop (normalizeForWrite newId entry oi) ''legacyStartIndex''
              = (if isNumber (jsprop entry ''legacyStartIndex'') then jsprop entry ''legacyStartIndex'' else JUndef)
          \<and> jsprop (normalizeForWrite newId entry oi) ''legacyEndIndex''
              = (if isNumber (jsprop entry ''legacyEndIndex'') then jsprop entry ''legacyEndIndex'' else JUndef)
       else isResolvedRecord (normalizeForWrite newId entry oi)
          \<or> (isFlaggedUnresolved (normalizeForWrite newId entry oi)
             \<and> jsprop (normalizeForWrite newId entry oi) ''legacyStartIndex'' = jsprop entry ''startIndex''
             \<and> jsprop (normalizeForWrite newId entry oi) ''legacyEndIndex'' = jsprop entry ''endIndex'')))"
proof (rule conjI)
  show "normalizeForRead newId entry oi \<noteq> JNull \<longrightarrow>
      isResolvedRecord (normalizeForRead newId entry oi)
      \<or> (isFlaggedUnresolved (normalizeForRead newId entry oi)
         \<and> jsprop (normalizeForRead newId entry oi) ''legacyStartIndex''
             = (if isLegacyIndexGrouping entry then jsprop entry ''startIndex''
                else jsprop entry ''legacyStartIndex'')
         \<and> jsprop (normalizeForRead newId entry oi) ''legacyEndIndex''
             = (if isLegacyIndexGrouping entry then jsprop entry ''endIndex''
                else jsprop entry ''legacyEndIndex''))"
    by (simp add: normalizeForRead_def isResolvedRecord_def isFlaggedUnresolved_def Let_def)
next
  show "normalizeForWrite newId entry oi \<noteq> JNull \<longrightarrow>
      (if isIdentifierAnchorGrouping entry
       then jsprop (normalizeForWrite newId entry oi) ''startIdentifier''
              = (if isString (jsprop entry ''startIdentifier'') then jsprop entry ''startIdentifier'' else JUndef)
          \<and> jsprop (normalizeForWrite newId entry oi) ''endIdentifier''
              = (if isString (jsprop entry ''endIdentifier'') then jsprop entry ''endIdentifier'' else JUndef)
          \<and> (isString (jsprop (normalizeForWrite newId entry oi) ''startIdentifier'')
               \<or> isString (jsprop (normalizeForWrite newId entry oi) ''endIdentifier''))
          \<and> (isFlaggedUnresolved (normalizeForWrite newId entry oi) \<longleftrightarrow> truthy (jsprop entry ''unresolved''))
          \<and> jsprop (normalizeForWrite newId entry oi) ''legacyStartIndex''
              = (if isNumber (jsprop entry ''legacyStartIndex'') then jsprop entry ''legacyStartIndex'' else JUndef)
          \<and> jsprop (normalizeForWrite newId entry oi) ''legacyEndIndex''
              = (if isNumber (jsprop entry ''legacyEndIndex'') then jsprop entry ''legacyEndIndex'' else JUndef)
       else isResolvedRecord (normalizeForWrite newId entry oi)
          \<or> (isFlaggedUnresolved (normalizeForWrite newId entry oi)
             \<and> jsprop (normalizeForWrite newId entry oi) ''legacyStartIndex'' = jsprop entry ''startIndex''
             \<and> jsprop (normalizeForWrite newId entry oi) ''legacyEndIndex'' = jsprop entry ''endIndex''))"
    by (simp add: normalizeForWrite_def isResolvedRecord_def isFlaggedUnresolved_def Let_def
        isIdentifierAnchorGrouping_def)
qed

text \<open>
  C2, witness: a legacy entry read and written against a key list too short for it comes
  back flagged with its indices 1 and 3.
\<close>

theorem normalized_record_resolved_or_flagged_witness:
  "normalizeForRead ''n'' (JObj [(''startIndex'', JNum ''1''), (''endIndex'', JNum ''3'')]) (JArr [JStr ''a'']) \<noteq> JNull
   \<and> normalizeForWrite ''n'' (JObj [(''startIndex'', JNum ''1''), (''endIndex'', JNum ''3'')]) (JArr [JStr ''a'']) \<noteq> JNull
   \<and> isFlaggedUnresolved
        (normalizeForRead ''n'' (JObj [(''startIndex'', JNum ''1''), (''endIndex'', JNum ''3'')]) (JArr [JStr ''a'']))
   \<and> jsprop (normalizeForRead ''n'' (JObj [(''startIndex'', JNum ''1''), (''endIndex'', JNum ''3'')]) (JArr [JStr ''a'']))
        ''legacyStartIndex'' = JNum ''1''
   \<and> isFlaggedUnresolved
        (normalizeForWrite ''n'' (JObj [(''startIndex'', JNum ''1''), (''endIndex'', JNum ''3'')]) (JArr [JStr ''a'']))
   \<and> jsprop (normalizeForWrite ''n'' (JObj [(''startIndex'', JNum ''1''), (''endIndex'', JNum ''3'')]) (JArr [JStr ''a'']))
        ''legacyEndIndex'' = JNum ''3''"
  using normalized_record_resolved_or_flagged
          [of "''n''" "JObj [(''startIndex'', JNum ''1''), (''endIndex'', JNum ''3'')]" "JArr [JStr ''a'']"]
  by (simp add: normalizeForRead_def normalizeForWrite_def isPlainObject_def isLegacyIndexGrouping_def
      isIdentifierAnchorGrouping_def identifierAt_def arrayIndexOf_def digitOf_def
      isResolvedRecord_def isFlaggedUnresolved_def)

section \<open>Round trip\<close>

text \<open>
  C3, as claimed: for every record with both anchors strings, writing it and reading the
  result back gives a record equal to it in name, startIdentifier, endIdentifier and mode.
  A record that has only its two anchors comes back with the default name and the default
  mode, which it did not have.  A record whose start anchor is the empty string comes back
  flagged unresolved and without anchors, although the key list holds both of them: the
  read keeps the anchors only if both are truthy.
\<close>

theorem roundtrip_fills_defaults_and_drops_empty_anchor:
  "isResolvedRecord bareRecord
   \<and> jsprop bareRecord ''name'' = JUndef
   \<and> jsprop bareRecord ''mode'' = JUndef
   \<and> jsprop (normalizeForRead ''n2'' (normalizeForWrite ''n1'' bareRecord storedKeys) storedKeys) ''name''
       = DEFAULT_GROUP_NAME
   \<and> jsprop (normalizeForRead ''n2'' (normalizeForWrite ''n1'' bareRecord storedKeys) storedKeys) ''mode''
       = JStr ''inclusive''
   \<and> DEFAULT_GROUP_NAME \<noteq> JUndef
   \<and> isResolvedRecord emptyAnchorRecord
   \<and> jsprop emptyAnchorRecord ''startIdentifier'' = JStr []
   \<and> jsprop emptyAnchorRecord ''endIdentifier'' = JStr ''c''
   \<and> normalizeForRead ''n2'' (normalizeForWrite ''n1'' emptyAnchorRecord emptyAnchorKeys) emptyAnchorKeys
       = JObj [(''id'', JStr ''g1''), (''name'', JStr ''Lore''), (''mode'', JStr ''inclusive''),
               (''unresolved'', JBool True), (''legacyStartIndex'', JUndef), (''legacyEndIndex'', JUndef)]"
  by (simp add: bareRecord_def emptyAnchorRecord_def emptyAnchorKeys_def storedKeys_def
      isResolvedRecord_def normalizeForRead_def normalizeForWrite_def isPlainObject_def
      isIdentifierAnchorGrouping_def isLegacyIndexGrouping_def readGroupName_def js_or_def
      groupIdOf_def DEFAULT_GROUP_NAME_def DEFAULT_MODE_def)

text \<open>
  C3, amended.  Let r be a resolved group record whose two anchors are non-empty strings,
  and take any key list.  Then writing r and reading the result back, each against that
  key list, yields a record with the same startIdentifier and endIdentifier as r, with
  the name \<open>r.name || r.groupName || DEFAULT_GROUP_NAME\<close> and with the mode
  \<open>r.mode || 'inclusive'\<close>; so name and mode are those of r whenever r has a name and
  a mode set.
\<close>

theorem write_then_read_roundtrip:
  assumes obj: "isPlainObject r"
    and s: "jsprop r ''startIdentifier'' = JStr s"
    and e: "jsprop r ''endIdentifier'' = JStr e"
    and s0: "s \<noteq> []"
    and e0: "e \<noteq> []"
  shows "normalizeForWrite newId r keys \<noteq> JNull
       \<and> normalizeForRead newId' (normalizeForWrite newId r keys) keys \<noteq> JNull
       \<and> jsprop (normalizeForRead newId' (normalizeForWrite newId r keys) keys) ''startIdentifier''
           = jsprop r ''startIdentifier''
       \<and> jsprop (normalizeForRead newId' (normalizeForWrite newId r keys) keys) ''endIdentifier''
           = jsprop r ''endIdentifier''
       \<and> jsprop (normalizeForRead newId' (normalizeForWrite newId r keys) keys) ''name'' = readGroupName r
       \<and> jsprop (normalizeForRead newId' (normalizeForWrite newId r keys) keys) ''mode''
           = js_or (jsprop r ''mode'') DEFAULT_MODE
       \<and> (truthy (jsprop r ''name'') \<longrightarrow>
            jsprop (normalizeForRead newId' (normalizeForWrite newId r keys) keys) ''name'' = jsprop r ''name'')
       \<and> (truthy (jsprop r ''mode'') \<longrightarrow>
            jsprop (normalizeForRead newId' (normalizeForWrite newId r keys) keys) ''mode'' = jsprop r ''mode'')"
proof -
  define w where "w = normalizeForWrite newId r keys"
  have anchor: "isIdentifierAnchorGrouping r" using s by (simp add: isIdentifierAnchorGrouping_def)
  have w: "w = JObj ([(''id'', groupIdOf newId r), (''name'', readGroupName r),
             (''mode'', js_or (jsprop r ''mode'') DEFAULT_MODE),
             (''startIdentifier'', JStr s), (''endIdentifier'', JStr e)]
            @ (if truthy (jsprop r ''unresolved'') then [(''unresolved'', JBool True)] else [])
            @ (if isNumber (jsprop r ''legacyStartIndex'')
                then [(''legacyStartIndex'', jsprop r ''legacyStartIndex'')] else [])
            @ (if isNumber (jsprop r ''legacyEndIndex'')
                then [(''legacyEndIndex'', jsprop r ''legacyEndIndex'')] else []))"
    unfolding w_def write_anchor_record [OF obj anchor] using s e by simp
  have tn: "truthy (readGroupName r)"
    by (simp add: readGroupName_def js_or_def DEFAULT_GROUP_NAME_def)
  have tm: "truthy (js_or (jsprop r ''mode'') DEFAULT_MODE)"
    by (simp add: js_or_def DEFAULT_MODE_def)
  have w1: "isPlainObject w" by (simp add: w isPlainObject_def)
  have w2: "jsprop w ''startIndex'' = JUndef" by (simp add: w)
  have w3: "jsprop w ''startIdentifier'' = JStr s" by (simp add: w)
  have w4: "jsprop w ''endIdentifier'' = JStr e" by (simp add: w)
  have w5: "jsprop w ''name'' = readGroupName r" by (simp add: w)
  have w6: "jsprop w ''mode'' = js_or (jsprop r ''mode'') DEFAULT_MODE" by (simp add: w)
  have w7: "\<not> isLegacyIndexGrouping w" by (simp add: isLegacyIndexGrouping_def w2)
  have n2: "readGroupName w = readGroupName r"
    using tn by (simp add: readGroupName_def [of w] js_or_def [of "readGroupName r"] w5)
  have m2: "js_or (jsprop w ''mode'') DEFAULT_MODE = js_or (jsprop r ''mode'') DEFAULT_MODE"
    using tm by (simp add: js_or_def [of "js_or (jsprop r ''mode'') DEFAULT_MODE"] w6)
  have rd: "normalizeForRead newId' w keys =
           JObj [(''id'', groupIdOf newId' w), (''name'', readGroupName r),
                 (''startIdentifier'', JStr s), (''endIdentifier'', JStr e),
                 (''mode'', js_or (jsprop r ''mode'') DEFAULT_MODE)]"
    unfolding read_anchor_record [OF w1 w7 w3 w4 s0 e0] n2 m2 by simp
  have nn: "truthy (jsprop r ''name'') \<longrightarrow> readGroupName r = jsprop r ''name''"
    by (simp add: readGroupName_def js_or_def)
  have mm: "truthy (jsprop r ''mode'') \<longrightarrow> js_or (jsprop r ''mode'') DEFAULT_MODE = jsprop r ''mode''"
    by (simp add: js_or_def)
  have "w \<noteq> JNull" by (simp add: w)
  then show ?thesis unfolding w_def [symmetric] rd using s e nn mm by simp
qed

text \<open>
  C3, witness: the stored group Lore, anchored at a and c, against the list a, b, c.
\<close>

theorem write_then_read_roundtrip_witness:
  "isPlainObject storedRecord
   \<and> jsprop storedRecord ''startIdentifier'' = JStr ''a''
   \<and> jsprop storedRecord ''endIdentifier'' = JStr ''c''
   \<and> truthy (jsprop storedRecord ''name'') \<and> truthy (jsprop storedRecord ''mode'')
   \<and> jsprop (normalizeForRead ''n2'' (normalizeForWrite ''n1'' storedRecord storedKeys) storedKeys) ''name''
       = JStr ''Lore''
   \<and> jsprop (normalizeForRead ''n2'' (normalizeForWrite ''n1'' storedRecord storedKeys) storedKeys) ''startIdentifier''
       = JStr ''a''
   \<and> jsprop (normalizeForRead ''n2'' (normalizeForWrite ''n1'' storedRecord storedKeys) storedKeys) ''endIdentifier''
       = JStr ''c''
   \<and> jsprop (normalizeForRead ''n2'' (normalizeForWrite ''n1'' storedRecord storedKeys) storedKeys) ''mode''
       = JStr ''inclusive''"
proof -
  have h1: "isPlainObject storedRecord" by (simp add: storedRecord_def isPlainObject_def)
  have h2: "jsprop storedRecord ''startIdentifier'' = JStr ''a''" by (simp add: storedRecord_def)
  have h3: "jsprop storedRecord ''endIdentifier'' = JStr ''c''" by (simp add: storedRecord_def)
  have h4: "truthy (jsprop storedRecord ''name'')" by (simp add: storedRecord_def)
  have h5: "truthy (jsprop storedRecord ''mode'')" by (simp add: storedRecord_def)
  have n: "jsprop storedRecord ''name'' = JStr ''Lore''" by (simp add: storedRecord_def)
  have m: "jsprop storedRecord ''mode'' = JStr ''inclusive''" by (simp add: storedRecord_def)
  from write_then_read_roundtrip [OF h1 h2 h3, of "''n1''" storedKeys "''n2''"]
  show ?thesis using h1 h4 h5 by (simp add: h2 h3 n m readGroupName_def js_or_def)
qed

section \<open>Bounds on mutation\<close>

text \<open>
  C6.  Let idx be -1 or the length of the current normalised record list of the preset
  (the stored grouping passed through \<open>getWritableGroupings\<close>).  Then
  \<open>updatePresetGrouping\<close> and \<open>removePresetGrouping\<close> both return false, and afterwards
  the stored grouping of every preset, the live settings and the presets handed to
  \<open>savePreset\<close> are what they were before the call.
\<close>

theorem mutation_out_of_bounds_fails:
  assumes "idx = - 1 \<or> idx = int (length (getWritableGroupings newIds (storedGrouping h presetName) keys))"
  shows "\<not> fst (updatePresetGrouping newIds newId h presetName idx s e n keys)
       \<and> (\<forall>p. storedGrouping (snd (updatePresetGrouping newIds newId h presetName idx s e n keys)) p
                = storedGrouping h p)
       \<and> liveSettings (snd (updatePresetGrouping newIds newId h presetName idx s e n keys)) = liveSettings h
       \<and> savedPresets (snd (updatePresetGrouping newIds newId h presetName idx s e n keys)) = savedPresets h
       \<and> \<not> fst (removePresetGrouping newIds h presetName idx keys)
       \<and> (\<forall>p. storedGrouping (snd (removePresetGrouping newIds h presetName idx keys)) p
                = storedGrouping h p)
       \<and> liveSettings (snd (removePresetGrouping newIds h presetName idx keys)) = liveSettings h
       \<and> savedPresets (snd (removePresetGrouping newIds h presetName idx keys)) = savedPresets h"
proof (cases "presetManagerAvailable h")
  case False
  then show ?thesis by (simp add: updatePresetGrouping_def removePresetGrouping_def)
next
  case True
  show ?thesis
  proof (cases "presetsByName h presetName")
    case None
    with True show ?thesis by (simp add: updatePresetGrouping_def removePresetGrouping_def)
  next
    case (Some presetObj)
    obtain ext h1 where w: "withExtensions h presetName presetObj = (ext, h1)"
      by (cases "withExtensions h presetName presetObj")
    have "jsprop (JObj ext) ''entryGrouping'' = storedGrouping h presetName"
      using withExtensions_grouping [OF Some] w by simp
    then have g: "(case map_of ext ''entryGrouping'' of None \<Rightarrow> JUndef | Some v \<Rightarrow> v)
                    = storedGrouping h presetName"
      by simp
    have st: "\<And>p. storedGrouping h1 p = storedGrouping h p"
      using withExtensions_stored [OF Some] w by simp
    have fl: "liveSettings h1 = liveSettings h" "savedPresets h1 = savedPresets h"
      using withExtensions_fields [of h presetName presetObj] w by simp_all
    have oob: "idx < 0 \<or> idx \<ge> int (length (getWritableGroupings newIds (storedGrouping h presetName) keys))"
      using assms by auto
    have up: "updatePresetGrouping newIds newId h presetName idx s e n keys = (False, h1)"
      using True oob by (simp add: updatePresetGrouping_def Some w g)
    have rm: "removePresetGrouping newIds h presetName idx keys = (False, h1)"
      using True oob by (simp add: removePresetGrouping_def Some w g)
    show ?thesis by (simp add: up rm st fl)
  qed
qed

text \<open>
  C6, witness: the preset Q stores one record, so -1 and 1 are the two indices of the
  claim; both calls fail for each and the stored record stays.
\<close>

theorem mutation_out_of_bounds_fails_witness:
  "length (getWritableGroupings noIds (storedGrouping storedHost ''Q'') storedKeys) = 1
   \<and> \<not> fst (updatePresetGrouping noIds ''n'' storedHost ''Q'' 1 JUndef JUndef (JStr ''New'') storedKeys)
   \<and> storedGrouping (snd (updatePresetGrouping noIds ''n'' storedHost ''Q'' 1 JUndef JUndef (JStr ''New'') storedKeys)) ''Q''
       = JArr [storedRecord]
   \<and> \<not> fst (removePresetGrouping noIds storedHost ''Q'' 1 storedKeys)
   \<and> storedGrouping (snd (removePresetGrouping noIds storedHost ''Q'' 1 storedKeys)) ''Q''
       = JArr [storedRecord]"
proof -
  have sg: "storedGrouping storedHost ''Q'' = JArr [storedRecord]"
    by (simp add: storedGrouping_def storedHost_def)
  have len: "length (getWritableGroupings noIds (storedGrouping storedHost ''Q'') storedKeys) = 1"
    by (simp add: sg getWritableGroupings_def asArray_def normalizeForWrite_def storedRecord_def
        isPlainObject_def isIdentifierAnchorGrouping_def)
  have hyp: "(1::int) = - 1 \<or> (1::int) = int (length (getWritableGroupings noIds (storedGrouping storedHost ''Q'') storedKeys))"
    by (simp add: len)
  from mutation_out_of_bounds_fails [OF hyp, of "''n''" JUndef JUndef "JStr ''New''"]
  show ?thesis by (simp add: len [unfolded sg] sg)
qed

section \<open>World-info group order\<close>







section \<open>Moving a world-info entry to a group\<close>








section \<open>Anchor resolution\<close>

lemma isString_conv: "isString v \<longleftrightarrow> (\<exists>s. v = JStr s)"
  by (cases v) auto

lemma indexOf_Some: "indexOf xs x = Some i \<Longrightarrow> i < length xs \<and> xs ! i = x"
proof (induction xs arbitrary: i)
  case Nil
  then show ?case by simp
next
  case (Cons y ys)
  then show ?case by (auto split: if_splits)
qed

lemma indexOf_None: "indexOf xs x = None \<longleftrightarrow> x \<notin> set xs"
  by (induction xs) auto

lemma insert_range:
  assumes "n \<le> length ids" "[] \<notin> set ids"
  shows "foldl (\<lambda>acc i. let ident = ids ! i in if ident \<noteq> [] then insert ident acc else acc)
           grouped [lo..<n]
         = grouped \<union> {ids ! i |i. lo \<le> i \<and> i < n}"
  using assms(1)
proof (induction n)
  case 0
  show ?case by simp
next
  case (Suc n)
  have ne: "ids ! n \<noteq> []" using Suc.prems assms(2) by (metis Suc_le_lessD nth_mem)
  show ?case
  proof (cases "lo \<le> n")
    case True
    have "{ids ! i |i. lo \<le> i \<and> i < Suc n} = insert (ids ! n) {ids ! i |i. lo \<le> i \<and> i < n}"
      using True by (auto simp: less_Suc_eq)
    with Suc True ne show ?thesis by (simp add: Let_def)
  next
    case False
    then show ?thesis by auto
  qed
qed

lemma read_record_anchors:
  assumes "normalizeForRead newId entry oi \<noteq> JNull"
  shows "(\<exists>s e. jsprop (normalizeForRead newId entry oi) ''startIdentifier'' = JStr s
               \<and> jsprop (normalizeForRead newId entry oi) ''endIdentifier'' = JStr e
               \<and> jsprop (normalizeForRead newId entry oi) ''unresolved'' = JUndef)
       \<or> (jsprop (normalizeForRead newId entry oi) ''startIdentifier'' = JUndef
          \<and> jsprop (normalizeForRead newId entry oi) ''endIdentifier'' = JUndef)"
  using assms
  by (simp add: normalizeForRead_def Let_def isString_conv split: if_splits)

lemma members_resolved:
  assumes s: "jsprop g ''startIdentifier'' = JStr s" and e: "jsprop g ''endIdentifier'' = JStr e"
    and u: "\<not> truthy (jsprop g ''unresolved'')"
    and si: "indexOf ids s = Some si" and ei: "indexOf ids e = Some ei"
    and ne: "[] \<notin> set ids"
  shows "addGroupMembers ids grouped g = grouped \<union> {ids ! i |i. min si ei \<le> i \<and> i \<le> max si ei}"
proof -
  have "Suc (max si ei) \<le> length ids" using indexOf_Some [OF si] indexOf_Some [OF ei] by auto
  from insert_range [OF this ne, of grouped "min si ei"]
  show ?thesis using s e u si ei by (simp add: addGroupMembers_def indexOfVal_def less_Suc_eq_le)
qed

lemma resolve_single:
  assumes s: "jsprop g ''startIdentifier'' = JStr s" and e: "jsprop g ''endIdentifier'' = JStr e"
    and u: "\<not> truthy (jsprop g ''unresolved'')"
    and si: "indexOf ids s = Some si" and ei: "indexOf ids e = Some ei"
  shows "resolveGroupings [g] ids = [\<lparr>grouping = g, originalIndex = 0, startIndex = si, endIndex = ei\<rparr>]"
  using assms by (simp add: resolveGroupings_def indexOfVal_def)

lemma unresolved_single:
  assumes "indexOfVal ids (jsprop g ''startIdentifier'') = None \<or> indexOfVal ids (jsprop g ''endIdentifier'') = None"
  shows "addGroupMembers ids grouped g = grouped" "resolveGroupings [g] ids = []"
  using assms
  by (auto simp add: addGroupMembers_def resolveGroupings_def split: option.splits)


lemma read_not_flagged_or_no_anchor:
  assumes "g = normalizeForRead newId entry oi" "g \<noteq> JNull"
  shows "(\<exists>s e. jsprop g ''startIdentifier'' = JStr s \<and> jsprop g ''endIdentifier'' = JStr e
               \<and> \<not> truthy (jsprop g ''unresolved''))
       \<or> (jsprop g ''startIdentifier'' = JUndef \<and> jsprop g ''endIdentifier'' = JUndef)"
  using read_record_anchors [of newId entry oi] assms by auto

text \<open>
  C7.  Let g and g' be group records as the store reads them, g' with the two anchors of g
  exchanged, and let ids be the identifiers read from the prompt list.  If either anchor of
  g is absent from ids, g contributes no member to the grouped set and is skipped by the
  reconciliation pass.  Otherwise, with si and ei the positions of its anchors, g
  contributes exactly the identifiers at the positions min si ei to max si ei inclusive,
  and the pass resolves it to these two positions.  g' contributes the same members as g.
  (An anchor is absent exactly when it is no element of ids; a position found is the
  first one holding the anchor; for a preset whose only group is g, what g contributes is
  the whole set \<open>getGroupedIdentifierSet\<close> returns.)
\<close>

theorem anchor_span_inclusive_order_independent:
  assumes g: "g = normalizeForRead newId entry oi" and nn: "g \<noteq> JNull"
    and g': "g' = normalizeForRead newId' entry' oi'" and nn': "g' \<noteq> JNull"
    and swapped: "jsprop g' ''startIdentifier'' = jsprop g ''endIdentifier''"
                 "jsprop g' ''endIdentifier'' = jsprop g ''startIdentifier''"
    and ids: "ids = getOrderedIdentifiersFromList u"
  shows "(indexOfVal ids (jsprop g ''startIdentifier'') = None
          \<or> indexOfVal ids (jsprop g ''endIdentifier'') = None
          \<longrightarrow> addGroupMembers ids grouped g = grouped \<and> resolveGroupings [g] ids = [])
       \<and> (\<forall>si ei. indexOfVal ids (jsprop g ''startIdentifier'') = Some si
                 \<and> indexOfVal ids (jsprop g ''endIdentifier'') = Some ei
          \<longrightarrow> addGroupMembers ids grouped g = grouped \<union> {ids ! i |i. min si ei \<le> i \<and> i \<le> max si ei}
              \<and> resolveGroupings [g] ids
                  = [\<lparr>grouping = g, originalIndex = 0, startIndex = si, endIndex = ei\<rparr>])
       \<and> addGroupMembers ids grouped g' = addGroupMembers ids grouped g
       \<and> (\<forall>s. (indexOfVal ids (JStr s) = None) = (s \<notin> set ids))
       \<and> (\<forall>s i. indexOfVal ids (JStr s) = Some i \<longrightarrow> i < length ids \<and> ids ! i = s)
       \<and> (getAllPresetGroupings n h p (JArr (map JStr ids)) = [g]
            \<longrightarrow> getGroupedIdentifierSet n h p ids = addGroupMembers ids {} g)"
proof -
  have ne: "[] \<notin> set ids" using ids
    by (auto simp: getOrderedIdentifiersFromList_def orderedIdentifiersOf_def split: option.splits)
  have A: "indexOfVal ids (jsprop g ''startIdentifier'') = None
          \<or> indexOfVal ids (jsprop g ''endIdentifier'') = None
          \<longrightarrow> addGroupMembers ids grouped g = grouped \<and> resolveGroupings [g] ids = []"
    using unresolved_single by blast
  have span: "addGroupMembers ids grouped r = grouped \<union> {ids ! i |i. min si ei \<le> i \<and> i \<le> max si ei}
              \<and> resolveGroupings [r] ids
                  = [\<lparr>grouping = r, originalIndex = 0, startIndex = si, endIndex = ei\<rparr>]"
    if r: "r = normalizeForRead n en o'" "r \<noteq> JNull"
      and "indexOfVal ids (jsprop r ''startIdentifier'') = Some si"
          "indexOfVal ids (jsprop r ''endIdentifier'') = Some ei"
    for r n en o' si ei
  proof -
    from read_not_flagged_or_no_anchor [OF r] that(3)
    obtain s e where se: "jsprop r ''startIdentifier'' = JStr s" "jsprop r ''endIdentifier'' = JStr e"
        "\<not> truthy (jsprop r ''unresolved'')"
      by (auto simp: indexOfVal_def)
    have i: "indexOf ids s = Some si" "indexOf ids e = Some ei"
      using that(3,4) se by (simp_all add: indexOfVal_def)
    show ?thesis using members_resolved [OF se i ne] resolve_single [OF se i] by simp
  qed
  have B: "\<forall>si ei. indexOfVal ids (jsprop g ''startIdentifier'') = Some si
                 \<and> indexOfVal ids (jsprop g ''endIdentifier'') = Some ei
          \<longrightarrow> addGroupMembers ids grouped g = grouped \<union> {ids ! i |i. min si ei \<le> i \<and> i \<le> max si ei}
              \<and> resolveGroupings [g] ids
                  = [\<lparr>grouping = g, originalIndex = 0, startIndex = si, endIndex = ei\<rparr>]"
    using span [OF g nn] by blast
  have C: "addGroupMembers ids grouped g' = addGroupMembers ids grouped g"
  proof (cases "indexOfVal ids (jsprop g ''startIdentifier'')")
    case None
    then show ?thesis using unresolved_single(1) swapped by metis
  next
    case (Some si)
    show ?thesis
    proof (cases "indexOfVal ids (jsprop g ''endIdentifier'')")
      case None
      then show ?thesis using unresolved_single(1) swapped by metis
    next
      case (Some ei)
      have 1: "addGroupMembers ids grouped g = grouped \<union> {ids ! i |i. min si ei \<le> i \<and> i \<le> max si ei}"
        using span [OF g nn \<open>indexOfVal ids (jsprop g ''startIdentifier'') = Some si\<close> Some] by simp
      have 2: "addGroupMembers ids grouped g' = grouped \<union> {ids ! i |i. min ei si \<le> i \<and> i \<le> max ei si}"
        using span [OF g' nn', of ei si] swapped Some \<open>indexOfVal ids (jsprop g ''startIdentifier'') = Some si\<close>
        by simp
      show ?thesis unfolding 1 2 by (simp add: min.commute max.commute)
    qed
  qed
  have D: "\<forall>s. (indexOfVal ids (JStr s) = None) = (s \<notin> set ids)"
    by (simp add: indexOfVal_def indexOf_None)
  have E: "\<forall>s i. indexOfVal ids (JStr s) = Some i \<longrightarrow> i < length ids \<and> ids ! i = s"
    by (simp add: indexOfVal_def indexOf_Some)
  have F: "getAllPresetGroupings n h p (JArr (map JStr ids)) = [g]
            \<longrightarrow> getGroupedIdentifierSet n h p ids = addGroupMembers ids {} g"
    by (simp add: getGroupedIdentifierSet_def)
  show ?thesis using A B C D E F by blast
qed


text \<open>
  C7, witness: the group anchored at a and c, and the same group stored with c first,
  over the list a, b, c: both span all three entries.
\<close>

theorem anchor_span_inclusive_order_independent_witness:
  "normalizeForRead ''n'' storedRecord storedKeys \<noteq> JNull
   \<and> normalizeForRead ''n'' swappedRecord storedKeys \<noteq> JNull
   \<and> indexOfVal (getOrderedIdentifiersFromList storedUi)
        (jsprop (normalizeForRead ''n'' storedRecord storedKeys) ''startIdentifier'') = Some 0
   \<and> indexOfVal (getOrderedIdentifiersFromList storedUi)
        (jsprop (normalizeForRead ''n'' storedRecord storedKeys) ''endIdentifier'') = Some 2
   \<and> addGroupMembers (getOrderedIdentifiersFromList storedUi) {}
        (normalizeForRead ''n'' storedRecord storedKeys)
       = {[''a'', ''b'', ''c''] ! i |i. 0 \<le> i \<and> i \<le> 2}
   \<and> addGroupMembers (getOrderedIdentifiersFromList storedUi) {}
        (normalizeForRead ''n'' swappedRecord storedKeys)
       = addGroupMembers (getOrderedIdentifiersFromList storedUi) {}
           (normalizeForRead ''n'' storedRecord storedKeys)"
proof -
  have ids: "getOrderedIdentifiersFromList storedUi = [''a'', ''b'', ''c'']"
    by (simp add: getOrderedIdentifiersFromList_def storedUi_def orderedIdentifiersOf_def)
  have r: "normalizeForRead ''n'' storedRecord storedKeys = storedRecord"
    by (simp add: normalizeForRead_def storedRecord_def isPlainObject_def isLegacyIndexGrouping_def
        isIdentifierAnchorGrouping_def groupIdOf_def readGroupName_def js_or_def)
  have r': "normalizeForRead ''n'' swappedRecord storedKeys = swappedRecord"
    by (simp add: normalizeForRead_def swappedRecord_def isPlainObject_def isLegacyIndexGrouping_def
        isIdentifierAnchorGrouping_def groupIdOf_def readGroupName_def js_or_def)
  have n: "storedRecord \<noteq> JNull" "swappedRecord \<noteq> JNull"
    by (simp_all add: storedRecord_def swappedRecord_def)
  have sw: "jsprop swappedRecord ''startIdentifier'' = jsprop storedRecord ''endIdentifier''"
           "jsprop swappedRecord ''endIdentifier'' = jsprop storedRecord ''startIdentifier''"
    by (simp_all add: storedRecord_def swappedRecord_def)
  have i0: "indexOfVal [''a'', ''b'', ''c''] (jsprop storedRecord ''startIdentifier'') = Some 0"
    by (simp add: indexOfVal_def storedRecord_def)
  have i2: "indexOfVal [''a'', ''b'', ''c''] (jsprop storedRecord ''endIdentifier'') = Some 2"
    by (simp add: indexOfVal_def storedRecord_def)
  from anchor_span_inclusive_order_independent
         [OF r [symmetric] n(1) r' [symmetric] n(2) sw ids [symmetric], of "{}"]
  show ?thesis using i0 i2 by (simp add: r r' ids n)
qed

section \<open>Helper facts about the reconciliation pass\<close>

lemma read_truthy:
  "truthy (normalizeForRead n e oi) \<longleftrightarrow>
     isPlainObject e \<and> (isLegacyIndexGrouping e \<or> isIdentifierAnchorGrouping e)"
  by (simp add: normalizeForRead_def Let_def)

lemma read_field_id_irrelevant:
  "k \<noteq> ''id'' \<Longrightarrow> jsprop (normalizeForRead n e oi) k = jsprop (normalizeForRead n' e oi) k"
  by (simp add: normalizeForRead_def Let_def)

lemma read_row_id_irrelevant:
  "groupingSignatureRow (normalizeForRead n e oi) = groupingSignatureRow (normalizeForRead n' e oi)"
proof -
  have f: "jsprop (normalizeForRead n e oi) ''name'' = jsprop (normalizeForRead n' e oi) ''name''"
    "jsprop (normalizeForRead n e oi) ''startIdentifier'' = jsprop (normalizeForRead n' e oi) ''startIdentifier''"
    "jsprop (normalizeForRead n e oi) ''endIdentifier'' = jsprop (normalizeForRead n' e oi) ''endIdentifier''"
    "jsprop (normalizeForRead n e oi) ''mode'' = jsprop (normalizeForRead n' e oi) ''mode''"
    "jsprop (normalizeForRead n e oi) ''unresolved'' = jsprop (normalizeForRead n' e oi) ''unresolved''"
    "jsprop (normalizeForRead n e oi) ''legacyStartIndex'' = jsprop (normalizeForRead n' e oi) ''legacyStartIndex''"
    "jsprop (normalizeForRead n e oi) ''legacyEndIndex'' = jsprop (normalizeForRead n' e oi) ''legacyEndIndex''"
    by (rule read_field_id_irrelevant, simp)+
  show ?thesis unfolding groupingSignatureRow_def f ..
qed

lemma map_filter_rows:
  assumes "\<And>x. x \<in> set xs \<Longrightarrow> truthy (f x) = truthy (f' x) \<and> row (f x) = row (f' x)"
  shows "map row (filter truthy (map f xs)) = map row (filter truthy (map f' xs))"
  using assms by (induction xs) auto

lemma groupings_rows_id_irrelevant:
  "map groupingSignatureRow (getAllPresetGroupings n h p k)
     = map groupingSignatureRow (getAllPresetGroupings n' h p k)"
proof -
  have "map groupingSignatureRow (filter truthy (map (\<lambda>(i, entry). normalizeForRead (n i) entry k) xs))
      = map groupingSignatureRow (filter truthy (map (\<lambda>(i, entry). normalizeForRead (n' i) entry k) xs))"
    for xs
  proof (rule map_filter_rows)
    fix x :: "nat \<times> jsval"
    obtain i e where x: "x = (i, e)" by (cases x)
    show "truthy (case x of (i, entry) \<Rightarrow> normalizeForRead (n i) entry k)
            = truthy (case x of (i, entry) \<Rightarrow> normalizeForRead (n' i) entry k)
        \<and> groupingSignatureRow (case x of (i, entry) \<Rightarrow> normalizeForRead (n i) entry k)
            = groupingSignatureRow (case x of (i, entry) \<Rightarrow> normalizeForRead (n' i) entry k)"
      unfolding x using read_row_id_irrelevant [of "n i" e k "n' i"] by (simp add: read_truthy)
  qed
  then show ?thesis
    unfolding getAllPresetGroupings_def Let_def
    by (simp split: option.splits)
qed

lemma groupings_empty_id_irrelevant:
  "(getAllPresetGroupings n h p k = []) = (getAllPresetGroupings n' h p k = [])"
proof -
  have "length (map groupingSignatureRow (getAllPresetGroupings n h p k))
      = length (map groupingSignatureRow (getAllPresetGroupings n' h p k))"
    by (simp only: groupings_rows_id_irrelevant [of n h p k n'])
  then show ?thesis by (simp only: length_map length_0_conv [symmetric])
qed

lemma signature_id_irrelevant:
  "computeGroupingSignature p ids (getAllPresetGroupings n h p k)
     = computeGroupingSignature p ids (getAllPresetGroupings n' h p k)"
  by (simp add: computeGroupingSignature_def groupings_rows_id_irrelevant [of n h p k n'])


lemma createGroupUis_keeps:
  "itemIds (createGroupUis items lc rs) = itemIds lc"
  "listNode (createGroupUis items lc rs) = listNode lc"
  unfolding createGroupUis_def
  by (induction rs arbitrary: lc) (simp_all add: createGroupUI_def Let_def)

lemma warnUnresolved_fields:
  "listContainer (warnUnresolved gs u) = listContainer u"
  "entryGroupingEnabled (warnUnresolved gs u) = entryGroupingEnabled u"
  "isApplyingGrouping (warnUnresolved gs u) = isApplyingGrouping u"
  "zeroResolvedRetryPreset (warnUnresolved gs u) = zeroResolvedRetryPreset u"
  "zeroResolvedRetryCount (warnUnresolved gs u) = zeroResolvedRetryCount u"
  "retryTimers (warnUnresolved gs u) = retryTimers u"
  "lastAppliedGroupingSignature (warnUnresolved gs u) = lastAppliedGroupingSignature u"
  "lastAppliedGroupingPreset (warnUnresolved gs u) = lastAppliedGroupingPreset u"
  "lastAppliedGroupingListNode (warnUnresolved gs u) = lastAppliedGroupingListNode u"
  by (simp_all add: warnUnresolved_def Let_def)

lemma zeroResolvedRetry_fields:
  "listContainer (zeroResolvedRetry p u) = listContainer u"
  "entryGroupingEnabled (zeroResolvedRetry p u) = entryGroupingEnabled u"
  "isApplyingGrouping (zeroResolvedRetry p u) = isApplyingGrouping u"
  "warnings (zeroResolvedRetry p u) = warnings u"
  "lastAppliedGroupingSignature (zeroResolvedRetry p u) = lastAppliedGroupingSignature u"
  "lastAppliedGroupingPreset (zeroResolvedRetry p u) = lastAppliedGroupingPreset u"
  "lastAppliedGroupingListNode (zeroResolvedRetry p u) = lastAppliedGroupingListNode u"
  by (simp_all add: zeroResolvedRetry_def Let_def)

lemma rebuild_unfold:
  "rebuildGroupingUi n h p sig lc u0 =
     (if itemIds lc = [] then (NoItemsAfterCleanup, u0\<lparr>listContainer := Some (cleanupGroupingUi lc)\<rparr>)
      else if \<not> distinct (orderedIdentifiersOf (itemIds lc))
      then (DuplicateAfterCleanup, u0\<lparr>listContainer := Some (cleanupGroupingUi lc)\<rparr>)
      else if getAllPresetGroupings n h p (JArr (map JStr (orderedIdentifiersOf (itemIds lc)))) = []
      then (NoGroupingsAfterCleanup, u0\<lparr>listContainer := Some (cleanupGroupingUi lc)\<rparr>)
      else if resolveGroupings (getAllPresetGroupings n h p (JArr (map JStr (orderedIdentifiersOf (itemIds lc)))))
                (orderedIdentifiersOf (itemIds lc)) = []
      then (ZeroResolved,
            zeroResolvedRetry p
              (warnUnresolved (getAllPresetGroupings n h p (JArr (map JStr (orderedIdentifiersOf (itemIds lc)))))
                 (u0\<lparr>listContainer := Some (cleanupGroupingUi lc)\<rparr>)))
      else (Rebuilt,
            (warnUnresolved (getAllPresetGroupings n h p (JArr (map JStr (orderedIdentifiersOf (itemIds lc)))))
               (u0\<lparr>listContainer := Some (cleanupGroupingUi lc)\<rparr>))
            \<lparr>zeroResolvedRetryPreset := None,
             zeroResolvedRetryCount := 0,
             listContainer := Some (createGroupUis (itemIds lc) (cleanupGroupingUi lc)
                (resolveGroupings (getAllPresetGroupings n h p (JArr (map JStr (orderedIdentifiersOf (itemIds lc)))))
                   (orderedIdentifiersOf (itemIds lc)))),
             lastAppliedGroupingSignature := Some sig,
             lastAppliedGroupingPreset := Some p,
             lastAppliedGroupingListNode := Some (listNode lc)\<rparr>))"
proof -
  have i: "itemIds (cleanupGroupingUi lc) = itemIds lc" by (simp add: cleanupGroupingUi_def)
  show ?thesis unfolding rebuildGroupingUi_def Let_def i by simp
qed

lemma rebuild_not_rebuilt:
  assumes "rebuildGroupingUi n h p sig lc u0 = (out, u1)" "out \<noteq> Rebuilt"
  shows "listContainer u1 = Some (cleanupGroupingUi lc)"
proof -
  from assms have "u1 = u0\<lparr>listContainer := Some (cleanupGroupingUi lc)\<rparr>
     \<or> u1 = zeroResolvedRetry p
              (warnUnresolved (getAllPresetGroupings n h p (JArr (map JStr (orderedIdentifiersOf (itemIds lc)))))
                 (u0\<lparr>listContainer := Some (cleanupGroupingUi lc)\<rparr>))"
    unfolding rebuild_unfold by (simp split: if_splits)
  then show ?thesis
    by (rule disjE) (simp_all add: zeroResolvedRetry_fields warnUnresolved_fields)
qed

lemma rebuild_rebuilt:
  assumes "rebuildGroupingUi n h p sig lc u0 = (Rebuilt, u1)"
  shows "\<exists>lc2. listContainer u1 = Some lc2 \<and> itemIds lc2 = itemIds lc \<and> listNode lc2 = listNode lc"
    and "lastAppliedGroupingSignature u1 = Some sig"
    and "lastAppliedGroupingPreset u1 = Some p"
    and "lastAppliedGroupingListNode u1 = Some (listNode lc)"
    and "entryGroupingEnabled u1 = entryGroupingEnabled u0"
    and "isApplyingGrouping u1 = isApplyingGrouping u0"
    and "zeroResolvedRetryPreset u1 = None" and "zeroResolvedRetryCount u1 = 0"
    and "retryTimers u1 = retryTimers u0"
proof -
  from assms have u1: "u1 =
            (warnUnresolved (getAllPresetGroupings n h p (JArr (map JStr (orderedIdentifiersOf (itemIds lc)))))
               (u0\<lparr>listContainer := Some (cleanupGroupingUi lc)\<rparr>))
            \<lparr>zeroResolvedRetryPreset := None,
             zeroResolvedRetryCount := 0,
             listContainer := Some (createGroupUis (itemIds lc) (cleanupGroupingUi lc)
                (resolveGroupings (getAllPresetGroupings n h p (JArr (map JStr (orderedIdentifiersOf (itemIds lc)))))
                   (orderedIdentifiersOf (itemIds lc)))),
             lastAppliedGroupingSignature := Some sig,
             lastAppliedGroupingPreset := Some p,
             lastAppliedGroupingListNode := Some (listNode lc)\<rparr>"
    unfolding rebuild_unfold by (simp split: if_splits)
  show "\<exists>lc2. listContainer u1 = Some lc2 \<and> itemIds lc2 = itemIds lc \<and> listNode lc2 = listNode lc"
    by (simp add: u1 createGroupUis_keeps cleanupGroupingUi_def)
  show "lastAppliedGroupingSignature u1 = Some sig" by (simp add: u1)
  show "lastAppliedGroupingPreset u1 = Some p" by (simp add: u1)
  show "lastAppliedGroupingListNode u1 = Some (listNode lc)" by (simp add: u1)
  show "entryGroupingEnabled u1 = entryGroupingEnabled u0" by (simp add: u1 warnUnresolved_fields)
  show "isApplyingGrouping u1 = isApplyingGrouping u0" by (simp add: u1 warnUnresolved_fields)
  show "zeroResolvedRetryPreset u1 = None" by (simp add: u1)
  show "zeroResolvedRetryCount u1 = 0" by (simp add: u1)
  show "retryTimers u1 = retryTimers u0" by (simp add: u1 warnUnresolved_fields)
qed


lemma pass_not_run:
  assumes "\<not> entryGroupingEnabled u \<or> getLoadedPresetName h = None \<or> listContainer u = None"
  shows "applyGroupingToList n n' h u = (NotRun, u)"
  using assms by (auto simp add: applyGroupingToList_def split: option.splits)

lemma pass_unfold:
  assumes "entryGroupingEnabled u" "getLoadedPresetName h = Some p" "listContainer u = Some lc"
  shows "applyGroupingToList n n' h u =
     (if itemIds lc = [] then (NoItems, u\<lparr>isApplyingGrouping := True\<rparr>)
      else if \<not> distinct (orderedIdentifiersOf (itemIds lc))
      then (DuplicateIdentifiers, u\<lparr>isApplyingGrouping := True\<rparr>)
      else if getAllPresetGroupings n h p (JArr (map JStr (orderedIdentifiersOf (itemIds lc)))) = []
      then (NoGroupings,
            u\<lparr>isApplyingGrouping := True,
              listContainer := Some (if hasGroupingUi lc then cleanupGroupingUi lc else lc),
              lastAppliedGroupingSignature :=
                Some (computeGroupingSignature p (orderedIdentifiersOf (itemIds lc))
                        (getAllPresetGroupings n h p (JArr (map JStr (orderedIdentifiersOf (itemIds lc)))))),
              lastAppliedGroupingPreset := Some p,
              lastAppliedGroupingListNode := Some (listNode lc)\<rparr>)
      else if hasGroupingUi lc
              \<and> lastAppliedGroupingSignature u
                  = Some (computeGroupingSignature p (orderedIdentifiersOf (itemIds lc))
                            (getAllPresetGroupings n h p (JArr (map JStr (orderedIdentifiersOf (itemIds lc))))))
              \<and> lastAppliedGroupingPreset u = Some p
              \<and> lastAppliedGroupingListNode u = Some (listNode lc)
      then (Skipped, u\<lparr>isApplyingGrouping := True\<rparr>)
      else rebuildGroupingUi n' h p
             (computeGroupingSignature p (orderedIdentifiersOf (itemIds lc))
                (getAllPresetGroupings n h p (JArr (map JStr (orderedIdentifiersOf (itemIds lc))))))
             lc (u\<lparr>isApplyingGrouping := True\<rparr>))"
  using assms unfolding applyGroupingToList_def Let_def by simp

lemma stored_reread:
  "getAllPresetGroupings n storedHost ''Q'' (JArr [JStr ''a'', JStr ''b'', JStr ''c'']) = [storedRecord]"
  by (simp add: getAllPresetGroupings_def getPreset_def storedHost_def asArray_def
      normalizeForRead_def isPlainObject_def isLegacyIndexGrouping_def isIdentifierAnchorGrouping_def
      storedRecord_def groupIdOf_def readGroupName_def js_or_def)

lemma stored_first_pass:
  "applyGroupingToList n n' storedHost storedUi
     = (Rebuilt,
        storedUi\<lparr>isApplyingGrouping := True,
                 listContainer := Some \<lparr>listNode = 7, itemIds = [''a'', ''b'', ''c''],
                    groupHeaders = [\<lparr>headerName = JStr ''Lore'', groupIndex = 0,
                                     totalCount = 3\<rparr>]\<rparr>,
                 lastAppliedGroupingSignature :=
                    Some (computeGroupingSignature ''Q'' [''a'', ''b'', ''c''] [storedRecord]),
                 lastAppliedGroupingPreset := Some ''Q'',
                 lastAppliedGroupingListNode := Some 7\<rparr>)"
proof -
  have l: "getLoadedPresetName storedHost = Some ''Q''"
    by (simp add: getLoadedPresetName_def storedHost_def)
  have r: "resolveGroupings [storedRecord] [''a'', ''b'', ''c'']
             = [\<lparr>grouping = storedRecord, originalIndex = 0, startIndex = 0, endIndex = 2\<rparr>]"
    by (simp add: resolveGroupings_def storedRecord_def indexOfVal_def)
  have f: "\<not> truthy (jsprop storedRecord ''unresolved'')" "jsprop storedRecord ''name'' = JStr ''Lore''"
    by (simp_all add: storedRecord_def)
  show ?thesis
    by (simp add: applyGroupingToList_def l storedUi_def orderedIdentifiersOf_def stored_reread
        rebuildGroupingUi_def cleanupGroupingUi_def hasGroupingUi_def warnUnresolved_def
        createGroupUis_def createGroupUI_def js_or_def r f Let_def)
qed

section \<open>Signature-gated idempotence\<close>

text \<open>
  C5, as claimed: whenever the pass runs twice in succession with nothing changed in
  between and the grouping presentation exists after the first call, the first call
  performs a rebuild.  It need not: on a list that has already been reconciled
  (\<open>appliedUi\<close>), the first of two further calls is itself skipped by the signature
  gate, and the presentation exists after it.
\<close>

theorem first_call_may_be_skipped:
  "fst (applyGroupingToList noIds noIds storedHost appliedUi) = Skipped
   \<and> fst (applyGroupingToList noIds noIds storedHost appliedUi) \<noteq> Rebuilt
   \<and> snd (applyGroupingToList noIds noIds storedHost appliedUi) = appliedUi
   \<and> map_option hasGroupingUi (listContainer (snd (applyGroupingToList noIds noIds storedHost appliedUi)))
       = Some True"
proof -
  have a: "appliedUi =
        storedUi\<lparr>isApplyingGrouping := True,
                 listContainer := Some \<lparr>listNode = 7, itemIds = [''a'', ''b'', ''c''],
                    groupHeaders = [\<lparr>headerName = JStr ''Lore'', groupIndex = 0,
                                     totalCount = 3\<rparr>]\<rparr>,
                 lastAppliedGroupingSignature :=
                    Some (computeGroupingSignature ''Q'' [''a'', ''b'', ''c''] [storedRecord]),
                 lastAppliedGroupingPreset := Some ''Q'',
                 lastAppliedGroupingListNode := Some 7\<rparr>"
    by (simp add: appliedUi_def stored_first_pass)
  have en: "entryGroupingEnabled appliedUi" by (simp add: a storedUi_def)
  have p: "getLoadedPresetName storedHost = Some ''Q''"
    by (simp add: getLoadedPresetName_def storedHost_def)
  have lc: "listContainer appliedUi = Some \<lparr>listNode = 7, itemIds = [''a'', ''b'', ''c''],
                    groupHeaders = [\<lparr>headerName = JStr ''Lore'', groupIndex = 0,
                                     totalCount = 3\<rparr>]\<rparr>"
    by (simp add: a)
  have ids: "orderedIdentifiersOf [''a'', ''b'', ''c''] = [''a'', ''b'', ''c'']"
    by (simp add: orderedIdentifiersOf_def)
  have last: "lastAppliedGroupingSignature appliedUi
                = Some (computeGroupingSignature ''Q'' [''a'', ''b'', ''c''] [storedRecord])"
    "lastAppliedGroupingPreset appliedUi = Some ''Q''"
    "lastAppliedGroupingListNode appliedUi = Some 7"
    by (simp_all add: a)
  have flag: "appliedUi\<lparr>isApplyingGrouping := True\<rparr> = appliedUi" by (simp add: a)
  have "applyGroupingToList noIds noIds storedHost appliedUi = (Skipped, appliedUi)"
    unfolding pass_unfold [OF en p lc]
    by (simp add: ids stored_reread hasGroupingUi_def last flag)
  then show ?thesis by (simp add: lc hasGroupingUi_def)
qed

text \<open>
  C5, amended.  Let the pass run twice in succession on the same host state (preset name
  and group records unchanged), the second call starting from the state the first one
  left (same list container, same identifiers; the guard flag \<open>isApplyingGrouping\<close> may
  or may not have been cleared in between), and let the grouping presentation exist after
  the first call.  Then the second call is a no-op: it returns before any cleanup or
  rebuild and leaves the module state and the list as the first call left them (with the
  guard flag set again).  If the first call performed a rebuild or was itself skipped, the
  second is skipped by the signature gate: its signature, preset name and container
  reference equal the last-applied ones.  Otherwise the first call stopped at an earlier
  guard (grouping disabled or no preset, no list items, duplicate identifiers) and the
  second stops at the same one.  The first call performs a rebuild whenever no grouping
  presentation existed before it.
\<close>

theorem second_pass_is_noop:
  assumes first: "applyGroupingToList n1 n1' h u = (o1, u1)"
    and second: "applyGroupingToList n2 n2' h (u1\<lparr>isApplyingGrouping := b\<rparr>) = (o2, u2)"
    and lc1: "listContainer u1 = Some lc1" and ui: "hasGroupingUi lc1"
  shows "u2 = (if o2 = NotRun then u1\<lparr>isApplyingGrouping := b\<rparr> else u1)
       \<and> (o2 = Skipped \<or> o2 = o1 \<and> (o1 = NotRun \<or> o1 = NoItems \<or> o1 = DuplicateIdentifiers))
       \<and> (o1 = Rebuilt \<or> o1 = Skipped \<longrightarrow> o2 = Skipped)
       \<and> ((\<forall>lc. listContainer u = Some lc \<longrightarrow> \<not> hasGroupingUi lc) \<longrightarrow> o1 = Rebuilt)"
proof (cases "\<not> entryGroupingEnabled u \<or> getLoadedPresetName h = None \<or> listContainer u = None")
  case True
  from pass_not_run [OF True] first have 1: "o1 = NotRun" "u1 = u" by simp_all
  from True have "\<not> entryGroupingEnabled (u\<lparr>isApplyingGrouping := b\<rparr>) \<or> getLoadedPresetName h = None
      \<or> listContainer (u\<lparr>isApplyingGrouping := b\<rparr>) = None" by simp
  from pass_not_run [OF this] second 1
  have 2: "o2 = NotRun" "u2 = u\<lparr>isApplyingGrouping := b\<rparr>" by simp_all
  show ?thesis using 1 2 lc1 ui by auto
next
  case False
  then obtain p lc where en: "entryGroupingEnabled u" and p: "getLoadedPresetName h = Some p"
    and lc: "listContainer u = Some lc" by auto
  define ids where "ids = orderedIdentifiersOf (itemIds lc)"
  define sig where "sig = computeGroupingSignature p ids (getAllPresetGroupings n1 h p (JArr (map JStr ids)))"
  have sig2: "computeGroupingSignature p ids (getAllPresetGroupings n2 h p (JArr (map JStr ids))) = sig"
    unfolding sig_def by (rule signature_id_irrelevant)
  have emp: "(getAllPresetGroupings n2 h p (JArr (map JStr ids)) = [])
            = (getAllPresetGroupings n1 h p (JArr (map JStr ids)) = [])"
    by (rule groupings_empty_id_irrelevant)
  note unf = pass_unfold [OF en p lc, of n1 n1', folded ids_def, folded sig_def]
  let ?u0 = "u\<lparr>isApplyingGrouping := True\<rparr>"
  let ?ub = "u\<lparr>isApplyingGrouping := b\<rparr>"
  have enb: "entryGroupingEnabled ?ub" using en by simp
  have lcb: "listContainer ?ub = Some lc" using lc by simp
  have flag: "?u0\<lparr>isApplyingGrouping := b\<rparr> = ?ub" "?ub\<lparr>isApplyingGrouping := True\<rparr> = ?u0" by simp_all
  have last: "lastAppliedGroupingSignature ?ub = lastAppliedGroupingSignature u"
    "lastAppliedGroupingPreset ?ub = lastAppliedGroupingPreset u"
    "lastAppliedGroupingListNode ?ub = lastAppliedGroupingListNode u" by simp_all
  consider (noitems) "itemIds lc = []"
    | (dup) "itemIds lc \<noteq> []" "\<not> distinct ids"
    | (nogroup) "itemIds lc \<noteq> []" "distinct ids" "getAllPresetGroupings n1 h p (JArr (map JStr ids)) = []"
    | (skip) "itemIds lc \<noteq> []" "distinct ids" "getAllPresetGroupings n1 h p (JArr (map JStr ids)) \<noteq> []"
        "hasGroupingUi lc" "lastAppliedGroupingSignature u = Some sig"
        "lastAppliedGroupingPreset u = Some p" "lastAppliedGroupingListNode u = Some (listNode lc)"
    | (rebuild) "itemIds lc \<noteq> []" "distinct ids" "getAllPresetGroupings n1 h p (JArr (map JStr ids)) \<noteq> []"
        "\<not> (hasGroupingUi lc \<and> lastAppliedGroupingSignature u = Some sig
            \<and> lastAppliedGroupingPreset u = Some p \<and> lastAppliedGroupingListNode u = Some (listNode lc))"
    by blast
  then show ?thesis
  proof cases
    case noitems
    from first have 1: "o1 = NoItems" "u1 = ?u0" unfolding unf using noitems by simp_all
    from second have 2: "o2 = NoItems" "u2 = ?u0"
      unfolding 1 flag pass_unfold [OF enb p lcb] using noitems by (simp_all add: flag)
    show ?thesis using 1 2 lc1 ui lc by auto
  next
    case dup
    from first have 1: "o1 = DuplicateIdentifiers" "u1 = ?u0" unfolding unf using dup by simp_all
    from second have 2: "o2 = DuplicateIdentifiers" "u2 = ?u0"
      unfolding 1 flag pass_unfold [OF enb p lcb, folded ids_def] using dup by (simp_all add: flag)
    show ?thesis using 1 2 lc1 ui lc by auto
  next
    case nogroup
    from first have "listContainer u1 = Some (if hasGroupingUi lc then cleanupGroupingUi lc else lc)"
      unfolding unf using nogroup by auto
    with lc1 ui have False by (auto simp: hasGroupingUi_def cleanupGroupingUi_def split: if_splits)
    then show ?thesis ..
  next
    case skip
    from first have 1: "o1 = Skipped" "u1 = ?u0" unfolding unf using skip by simp_all
    from second have 2: "o2 = Skipped" "u2 = ?u0"
      unfolding 1 flag pass_unfold [OF enb p lcb, folded ids_def] last
      using skip emp sig2 by (simp_all add: flag)
    show ?thesis using 1 2 lc skip(4) by auto
  next
    case rebuild
    from first have rb: "rebuildGroupingUi n1' h p sig lc ?u0 = (o1, u1)"
      unfolding unf using rebuild by simp
    have o1: "o1 = Rebuilt"
    proof (rule ccontr)
      assume "o1 \<noteq> Rebuilt"
      from rebuild_not_rebuilt [OF rb this] lc1 ui show False
        by (simp add: hasGroupingUi_def cleanupGroupingUi_def)
    qed
    note r = rebuild_rebuilt [OF rb [unfolded o1]]
    from r(1) lc1 have k: "itemIds lc1 = itemIds lc" "listNode lc1 = listNode lc" by auto
    let ?u1b = "u1\<lparr>isApplyingGrouping := b\<rparr>"
    have en1: "entryGroupingEnabled ?u1b" using r(5) en by simp
    have lc1b: "listContainer ?u1b = Some lc1" using lc1 by simp
    have ap1: "?u1b\<lparr>isApplyingGrouping := True\<rparr> = u1" using r(6) by simp
    have last1: "lastAppliedGroupingSignature ?u1b = Some sig"
      "lastAppliedGroupingPreset ?u1b = Some p"
      "lastAppliedGroupingListNode ?u1b = Some (listNode lc)" using r(2,3,4) by simp_all
    from second have 2: "o2 = Skipped" "u2 = u1"
      unfolding pass_unfold [OF en1 p lc1b] k ids_def [symmetric] last1 ap1
      using rebuild(1,2,3) emp sig2 ui by simp_all
    show ?thesis using o1 2 by simp
  qed
qed

text \<open>
  C5, witness: the first pass over the list a, b, c under the preset Q builds the group
  Lore; the second pass is skipped and changes nothing.
\<close>

theorem second_pass_is_noop_witness:
  "applyGroupingToList noIds noIds storedHost storedUi = (Rebuilt, appliedUi)
   \<and> map_option hasGroupingUi (listContainer appliedUi) = Some True
   \<and> applyGroupingToList noIds noIds storedHost (appliedUi\<lparr>isApplyingGrouping := False\<rparr>)
       = (Skipped, appliedUi)"
proof -
  obtain o2 u2 where second:
      "applyGroupingToList noIds noIds storedHost (appliedUi\<lparr>isApplyingGrouping := False\<rparr>) = (o2, u2)"
    by (cases "applyGroupingToList noIds noIds storedHost (appliedUi\<lparr>isApplyingGrouping := False\<rparr>)")
  have first: "applyGroupingToList noIds noIds storedHost storedUi = (Rebuilt, appliedUi)"
    by (simp add: appliedUi_def stored_first_pass)
  have lc: "listContainer appliedUi = Some \<lparr>listNode = 7, itemIds = [''a'', ''b'', ''c''],
                    groupHeaders = [\<lparr>headerName = JStr ''Lore'', groupIndex = 0,
                                     totalCount = 3\<rparr>]\<rparr>"
    by (simp add: appliedUi_def stored_first_pass)
  have ui: "hasGroupingUi \<lparr>listNode = 7, itemIds = [''a'', ''b'', ''c''],
                    groupHeaders = [\<lparr>headerName = JStr ''Lore'', groupIndex = 0,
                                     totalCount = 3\<rparr>]\<rparr>"
    by (simp add: hasGroupingUi_def)
  from second_pass_is_noop [OF first second lc ui] have "o2 = Skipped" "u2 = appliedUi" by simp_all
  then show ?thesis using first lc ui by (simp add: second)
qed

section \<open>Zero-resolved retry\<close>

lemma scenario_host_preset: "getLoadedPresetName (scenarioAfterAdd newId) = Some ''P''"
  by (simp add: scenario_after_add getLoadedPresetName_def scenarioHost_def)

lemma zeroResolvedRetry_state:
  "zeroResolvedRetryPreset (zeroResolvedRetry p u) = Some p"
  "zeroResolvedRetryCount (zeroResolvedRetry p u)
     = (let c = (if zeroResolvedRetryPreset u = Some p then zeroResolvedRetryCount u else 0)
        in if c < 3 then c + 1 else c)"
  "retryTimers (zeroResolvedRetry p u)
     = retryTimers u @ (let c = (if zeroResolvedRetryPreset u = Some p then zeroResolvedRetryCount u else 0)
                        in if c < 3 then [450, 1200] else [])"
  by (simp_all add: zeroResolvedRetry_def Let_def)

lemma warnUnresolved_warnings:
  "warnings (warnUnresolved gs u) = warnings u
   \<or> (\<exists>k. k \<noteq> 0 \<and> warnings (warnUnresolved gs u) = warnings u @ [k])"
  by (simp add: warnUnresolved_def Let_def)

lemma scenario_zero_pass:
  assumes en: "entryGroupingEnabled u"
    and lc: "listContainer u = Some \<lparr>listNode = k, itemIds = [''p1'', ''p3'', ''p4''], groupHeaders = []\<rparr>"
  shows "applyGroupingToList n n' (scenarioAfterAdd newId) u
     = (ZeroResolved,
        zeroResolvedRetry ''P''
          (u\<lparr>isApplyingGrouping := True,
             listContainer := Some \<lparr>listNode = k, itemIds = [''p1'', ''p3'', ''p4''], groupHeaders = []\<rparr>\<rparr>))"
proof -
  have ids: "orderedIdentifiersOf [''p1'', ''p3'', ''p4''] = [''p1'', ''p3'', ''p4'']"
    by (simp add: orderedIdentifiersOf_def)
  have r: "resolveGroupings [introRecord newId] [''p1'', ''p3'', ''p4''] = []"
    by (simp add: resolveGroupings_def introRecord_def indexOfVal_def)
  have f: "\<not> truthy (jsprop (introRecord newId) ''unresolved'')"
    by (simp add: introRecord_def)
  show ?thesis
    unfolding pass_unfold [OF en scenario_host_preset lc] rebuild_unfold
    by (simp add: ids scenario_reread r f hasGroupingUi_def cleanupGroupingUi_def warnUnresolved_def)
qed

lemma other_preset_pass:
  assumes en: "entryGroupingEnabled u"
    and lc: "listContainer u = Some \<lparr>listNode = k, itemIds = [''p1'', ''p3'', ''p4''], groupHeaders = []\<rparr>"
  shows "fst (applyGroupingToList n n' otherPresetHost u) = NoGroupings"
    and "zeroResolvedRetryPreset (snd (applyGroupingToList n n' otherPresetHost u)) = zeroResolvedRetryPreset u"
    and "zeroResolvedRetryCount (snd (applyGroupingToList n n' otherPresetHost u)) = zeroResolvedRetryCount u"
    and "retryTimers (snd (applyGroupingToList n n' otherPresetHost u)) = retryTimers u"
    and "entryGroupingEnabled (snd (applyGroupingToList n n' otherPresetHost u))"
    and "listContainer (snd (applyGroupingToList n n' otherPresetHost u))
           = Some \<lparr>listNode = k, itemIds = [''p1'', ''p3'', ''p4''], groupHeaders = []\<rparr>"
proof -
  have p: "getLoadedPresetName otherPresetHost = Some ''Q''"
    by (simp add: otherPresetHost_def scenario_after_add getLoadedPresetName_def scenarioHost_def)
  have g: "getAllPresetGroupings n otherPresetHost ''Q'' ks = []" for ks
    by (simp add: otherPresetHost_def scenario_after_add getAllPresetGroupings_def getPreset_def
        scenarioHost_def)
  have ids: "orderedIdentifiersOf [''p1'', ''p3'', ''p4''] = [''p1'', ''p3'', ''p4'']"
    by (simp add: orderedIdentifiersOf_def)
  note unf = pass_unfold [OF en p lc, of n n']
  show "fst (applyGroupingToList n n' otherPresetHost u) = NoGroupings"
    unfolding unf by (simp add: ids g)
  show "zeroResolvedRetryPreset (snd (applyGroupingToList n n' otherPresetHost u)) = zeroResolvedRetryPreset u"
    unfolding unf by (simp add: ids g)
  show "zeroResolvedRetryCount (snd (applyGroupingToList n n' otherPresetHost u)) = zeroResolvedRetryCount u"
    unfolding unf by (simp add: ids g)
  show "retryTimers (snd (applyGroupingToList n n' otherPresetHost u)) = retryTimers u"
    unfolding unf by (simp add: ids g)
  show "entryGroupingEnabled (snd (applyGroupingToList n n' otherPresetHost u))"
    unfolding unf using en by (simp add: ids g)
  show "listContainer (snd (applyGroupingToList n n' otherPresetHost u))
           = Some \<lparr>listNode = k, itemIds = [''p1'', ''p3'', ''p4''], groupHeaders = []\<rparr>"
    unfolding unf by (simp add: ids g hasGroupingUi_def)
qed

lemma zero_pass_fields:
  assumes en: "entryGroupingEnabled u"
    and lc: "listContainer u = Some \<lparr>listNode = k, itemIds = [''p1'', ''p3'', ''p4''], groupHeaders = []\<rparr>"
  shows "fst (applyGroupingToList n n' (scenarioAfterAdd newId) u) = ZeroResolved"
    and "zeroResolvedRetryPreset (snd (applyGroupingToList n n' (scenarioAfterAdd newId) u)) = Some ''P''"
    and "zeroResolvedRetryCount (snd (applyGroupingToList n n' (scenarioAfterAdd newId) u))
          = (let c = (if zeroResolvedRetryPreset u = Some ''P'' then zeroResolvedRetryCount u else 0)
             in if c < 3 then c + 1 else c)"
    and "retryTimers (snd (applyGroupingToList n n' (scenarioAfterAdd newId) u))
          = retryTimers u @ (let c = (if zeroResolvedRetryPreset u = Some ''P'' then zeroResolvedRetryCount u else 0)
                             in if c < 3 then [450, 1200] else [])"
    and "entryGroupingEnabled (snd (applyGroupingToList n n' (scenarioAfterAdd newId) u))"
    and "listContainer (snd (applyGroupingToList n n' (scenarioAfterAdd newId) u))
           = Some \<lparr>listNode = k, itemIds = [''p1'', ''p3'', ''p4''], groupHeaders = []\<rparr>"
  using en
  by (simp_all add: scenario_zero_pass [OF en lc] zeroResolvedRetry_state zeroResolvedRetry_fields)

lemma exhausted_state:
  "entryGroupingEnabled exhaustedUi"
  "listContainer exhaustedUi = Some \<lparr>listNode = 0, itemIds = [''p1'', ''p3'', ''p4''], groupHeaders = []\<rparr>"
  "zeroResolvedRetryPreset exhaustedUi = Some ''P''"
  "zeroResolvedRetryCount exhaustedUi = 3"
  "retryTimers exhaustedUi = [450, 1200, 450, 1200, 450, 1200]"
proof -
  define u1 where "u1 = snd (applyGroupingToList noIds noIds (scenarioAfterAdd ''g1'') scenarioUi)"
  define u2 where "u2 = snd (applyGroupingToList noIds noIds (scenarioAfterAdd ''g1'') u1)"
  have x: "exhaustedUi = snd (applyGroupingToList noIds noIds (scenarioAfterAdd ''g1'') u2)"
    by (simp add: exhaustedUi_def u1_def u2_def)
  have en0: "entryGroupingEnabled scenarioUi"
    and lc0: "listContainer scenarioUi
               = Some \<lparr>listNode = 0, itemIds = [''p1'', ''p3'', ''p4''], groupHeaders = []\<rparr>"
    and s0: "zeroResolvedRetryPreset scenarioUi = None" "zeroResolvedRetryCount scenarioUi = 0"
        "retryTimers scenarioUi = []"
    by (simp_all add: scenarioUi_def)
  note z1 = zero_pass_fields [OF en0 lc0, of noIds noIds "''g1''", folded u1_def]
  have c1: "zeroResolvedRetryCount u1 = 1" "retryTimers u1 = [450, 1200]"
    using z1(3,4) by (simp_all add: s0)
  note z2 = zero_pass_fields [OF z1(5) z1(6), of noIds noIds "''g1''", folded u2_def]
  have c2: "zeroResolvedRetryCount u2 = 2" "retryTimers u2 = [450, 1200, 450, 1200]"
    using z2(3,4) by (simp_all add: z1(2) c1)
  note z3 = zero_pass_fields [OF z2(5) z2(6), of noIds noIds "''g1''", folded x]
  show "entryGroupingEnabled exhaustedUi" by (rule z3(5))
  show "listContainer exhaustedUi
          = Some \<lparr>listNode = 0, itemIds = [''p1'', ''p3'', ''p4''], groupHeaders = []\<rparr>" by (rule z3(6))
  show "zeroResolvedRetryPreset exhaustedUi = Some ''P''" by (rule z3(2))
  show "zeroResolvedRetryCount exhaustedUi = 3" using z3(3) by (simp add: z2(2) c2)
  show "retryTimers exhaustedUi = [450, 1200, 450, 1200, 450, 1200]" using z3(4) by (simp add: z2(2) c2)
qed

text \<open>
  C8, as claimed: the retry counter is reset whenever the active preset changes.  The
  counter is compared with the preset only inside a pass that resolves no group.  After
  three such passes under the preset P the counter stands at 3; the user switches to the
  preset Q, which has no groups, so the pass under Q returns before the retry block; back
  under P the counter is still 3 and the pass that again resolves no group schedules no
  retry.
\<close>

theorem preset_change_without_reset:
  "getLoadedPresetName (scenarioAfterAdd ''g1'') = Some ''P''
   \<and> getLoadedPresetName otherPresetHost = Some ''Q''
   \<and> zeroResolvedRetryCount exhaustedUi = 3
   \<and> fst (applyGroupingToList noIds noIds otherPresetHost exhaustedUi) = NoGroupings
   \<and> zeroResolvedRetryCount awayUi = 3
   \<and> fst (applyGroupingToList noIds noIds (scenarioAfterAdd ''g1'') awayUi) = ZeroResolved
   \<and> zeroResolvedRetryCount (snd (applyGroupingToList noIds noIds (scenarioAfterAdd ''g1'') awayUi)) = 3
   \<and> retryTimers (snd (applyGroupingToList noIds noIds (scenarioAfterAdd ''g1'') awayUi)) = retryTimers exhaustedUi"
proof -
  have q: "getLoadedPresetName otherPresetHost = Some ''Q''"
    by (simp add: otherPresetHost_def scenario_after_add getLoadedPresetName_def scenarioHost_def)
  note a = other_preset_pass [OF exhausted_state(1,2), of noIds noIds, folded awayUi_def]
  note b = zero_pass_fields [OF a(5) a(6), of noIds noIds "''g1''"]
  have ca: "zeroResolvedRetryCount awayUi = 3" "zeroResolvedRetryPreset awayUi = Some ''P''"
    using a(2,3) exhausted_state(3,4) by simp_all
  show ?thesis
    using scenario_host_preset [of "''g1''"] q exhausted_state(4) a(1) ca(1) b(1) b(3) b(4) a(4)
    by (simp add: ca)
qed


text \<open>
  C8, amended.  A pass that gets past the signature gate, finds group records and
  resolves none of them (as it does on a list without grouping presentation whose records
  resolve to nothing) counts against the retry counter, taken as 0 if the recorded retry
  preset is not the current preset: while the counter is below 3 it is incremented and
  two follow-up passes are scheduled, after 450 ms and after 1200 ms; from 3 on nothing is
  scheduled.  The counter never exceeds 3, and the only message a pass can show is the
  warning with the number of groups flagged unresolved.  A pass that resolves at least one
  group resets the counter to 0 and clears the recorded preset.  Every other pass leaves
  counter, recorded preset and timers untouched, so the counter restarts for another
  preset only when a pass under that preset resolves no group.
\<close>

theorem zero_resolved_retry_is_bounded:
  assumes pass: "applyGroupingToList n n' h u = (out, u1)"
  shows "(out = ZeroResolved \<longrightarrow>
            (\<exists>p. getLoadedPresetName h = Some p
                 \<and> zeroResolvedRetryPreset u1 = Some p
                 \<and> zeroResolvedRetryCount u1
                     = (let c = (if zeroResolvedRetryPreset u = Some p then zeroResolvedRetryCount u else 0)
                        in if c < 3 then c + 1 else c)
                 \<and> retryTimers u1
                     = retryTimers u @ (let c = (if zeroResolvedRetryPreset u = Some p
                                                then zeroResolvedRetryCount u else 0)
                                        in if c < 3 then [450, 1200] else [])))
       \<and> (out = Rebuilt \<longrightarrow>
            zeroResolvedRetryPreset u1 = None \<and> zeroResolvedRetryCount u1 = 0
            \<and> retryTimers u1 = retryTimers u)
       \<and> (out \<noteq> ZeroResolved \<and> out \<noteq> Rebuilt \<longrightarrow>
            zeroResolvedRetryPreset u1 = zeroResolvedRetryPreset u
            \<and> zeroResolvedRetryCount u1 = zeroResolvedRetryCount u
            \<and> retryTimers u1 = retryTimers u)
       \<and> (zeroResolvedRetryCount u \<le> 3 \<longrightarrow> zeroResolvedRetryCount u1 \<le> 3)
       \<and> (warnings u1 = warnings u \<or> (\<exists>k. k \<noteq> 0 \<and> warnings u1 = warnings u @ [k]))
       \<and> (\<forall>p lc. entryGroupingEnabled u \<and> getLoadedPresetName h = Some p \<and> listContainer u = Some lc
                 \<and> \<not> hasGroupingUi lc \<and> itemIds lc \<noteq> [] \<and> distinct (orderedIdentifiersOf (itemIds lc))
                 \<and> getAllPresetGroupings n' h p (JArr (map JStr (orderedIdentifiersOf (itemIds lc)))) \<noteq> []
                 \<and> resolveGroupings
                      (getAllPresetGroupings n' h p (JArr (map JStr (orderedIdentifiersOf (itemIds lc)))))
                      (orderedIdentifiersOf (itemIds lc)) = []
             \<longrightarrow> out = ZeroResolved)"
proof -
  have trigger: "\<forall>p lc. entryGroupingEnabled u \<and> getLoadedPresetName h = Some p \<and> listContainer u = Some lc
                 \<and> \<not> hasGroupingUi lc \<and> itemIds lc \<noteq> [] \<and> distinct (orderedIdentifiersOf (itemIds lc))
                 \<and> getAllPresetGroupings n' h p (JArr (map JStr (orderedIdentifiersOf (itemIds lc)))) \<noteq> []
                 \<and> resolveGroupings
                      (getAllPresetGroupings n' h p (JArr (map JStr (orderedIdentifiersOf (itemIds lc)))))
                      (orderedIdentifiersOf (itemIds lc)) = []
             \<longrightarrow> out = ZeroResolved"
  proof (intro allI impI, elim conjE)
    fix p lc
    assume en: "entryGroupingEnabled u" and p: "getLoadedPresetName h = Some p"
      and lc: "listContainer u = Some lc" and noui: "\<not> hasGroupingUi lc"
      and it: "itemIds lc \<noteq> []" and di: "distinct (orderedIdentifiersOf (itemIds lc))"
      and gs: "getAllPresetGroupings n' h p (JArr (map JStr (orderedIdentifiersOf (itemIds lc)))) \<noteq> []"
      and rs: "resolveGroupings
                 (getAllPresetGroupings n' h p (JArr (map JStr (orderedIdentifiersOf (itemIds lc)))))
                 (orderedIdentifiersOf (itemIds lc)) = []"
    have gs0: "getAllPresetGroupings n h p (JArr (map JStr (orderedIdentifiersOf (itemIds lc)))) \<noteq> []"
      using gs groupings_empty_id_irrelevant [of n h p _ n'] by simp
    show "out = ZeroResolved"
      using pass unfolding pass_unfold [OF en p lc] rebuild_unfold
      using noui it di gs gs0 rs by simp
  qed
  have rest: "(out = ZeroResolved \<longrightarrow>
            (\<exists>p. getLoadedPresetName h = Some p
                 \<and> zeroResolvedRetryPreset u1 = Some p
                 \<and> zeroResolvedRetryCount u1
                     = (let c = (if zeroResolvedRetryPreset u = Some p then zeroResolvedRetryCount u else 0)
                        in if c < 3 then c + 1 else c)
                 \<and> retryTimers u1
                     = retryTimers u @ (let c = (if zeroResolvedRetryPreset u = Some p
                                                then zeroResolvedRetryCount u else 0)
                                        in if c < 3 then [450, 1200] else [])))
       \<and> (out = Rebuilt \<longrightarrow>
            zeroResolvedRetryPreset u1 = None \<and> zeroResolvedRetryCount u1 = 0
            \<and> retryTimers u1 = retryTimers u)
       \<and> (out \<noteq> ZeroResolved \<and> out \<noteq> Rebuilt \<longrightarrow>
            zeroResolvedRetryPreset u1 = zeroResolvedRetryPreset u
            \<and> zeroResolvedRetryCount u1 = zeroResolvedRetryCount u
            \<and> retryTimers u1 = retryTimers u)
       \<and> (zeroResolvedRetryCount u \<le> 3 \<longrightarrow> zeroResolvedRetryCount u1 \<le> 3)
       \<and> (warnings u1 = warnings u \<or> (\<exists>k. k \<noteq> 0 \<and> warnings u1 = warnings u @ [k]))"
  proof (cases "\<not> entryGroupingEnabled u \<or> getLoadedPresetName h = None \<or> listContainer u = None")
  case True
  from pass_not_run [OF True] pass have "out = NotRun" "u1 = u" by simp_all
  then show ?thesis by simp
next
  case False
  then obtain p lc where en: "entryGroupingEnabled u" and p: "getLoadedPresetName h = Some p"
    and lc: "listContainer u = Some lc" by auto
  define ids where "ids = orderedIdentifiersOf (itemIds lc)"
  define gs where "gs = getAllPresetGroupings n h p (JArr (map JStr ids))"
  define gs' where "gs' = getAllPresetGroupings n' h p (JArr (map JStr ids))"
  define sig where "sig = computeGroupingSignature p ids gs"
  let ?u0 = "u\<lparr>isApplyingGrouping := True\<rparr>"
  let ?uc = "?u0\<lparr>listContainer := Some (cleanupGroupingUi lc)\<rparr>"
  note unf = pass_unfold [OF en p lc, of n n', folded ids_def, folded gs_def, folded sig_def]
  note runf = rebuild_unfold [of n' h p sig lc ?u0, folded ids_def, folded gs'_def]
  consider (early) "out \<noteq> ZeroResolved" "out \<noteq> Rebuilt"
      "zeroResolvedRetryPreset u1 = zeroResolvedRetryPreset u"
      "zeroResolvedRetryCount u1 = zeroResolvedRetryCount u"
      "retryTimers u1 = retryTimers u" "warnings u1 = warnings u"
    | (zero) "out = ZeroResolved" "u1 = zeroResolvedRetry p (warnUnresolved gs' ?uc)"
    | (rebuilt) "out = Rebuilt" "rebuildGroupingUi n' h p sig lc ?u0 = (Rebuilt, u1)"
        "warnings u1 = warnings (warnUnresolved gs' ?uc)"
  proof -
    have "(out \<noteq> ZeroResolved \<and> out \<noteq> Rebuilt
            \<and> zeroResolvedRetryPreset u1 = zeroResolvedRetryPreset u
            \<and> zeroResolvedRetryCount u1 = zeroResolvedRetryCount u
            \<and> retryTimers u1 = retryTimers u \<and> warnings u1 = warnings u)
        \<or> (out = ZeroResolved \<and> u1 = zeroResolvedRetry p (warnUnresolved gs' ?uc))
        \<or> (out = Rebuilt \<and> rebuildGroupingUi n' h p sig lc ?u0 = (Rebuilt, u1)
            \<and> warnings u1 = warnings (warnUnresolved gs' ?uc))"
      using pass unfolding unf runf by (auto split: if_splits)
    then show ?thesis using that by blast
  qed
  then show ?thesis
  proof cases
    case early
    then show ?thesis by simp
  next
    case zero
    have w: "warnings u1 = warnings (warnUnresolved gs' ?uc)"
      by (simp add: zero(2) zeroResolvedRetry_fields)
    have "warnings ?uc = warnings u" by simp
    with warnUnresolved_warnings [of gs' ?uc] w
    have ww: "warnings u1 = warnings u \<or> (\<exists>k. k \<noteq> 0 \<and> warnings u1 = warnings u @ [k])" by simp
    have st: "zeroResolvedRetryPreset (warnUnresolved gs' ?uc) = zeroResolvedRetryPreset u"
      "zeroResolvedRetryCount (warnUnresolved gs' ?uc) = zeroResolvedRetryCount u"
      "retryTimers (warnUnresolved gs' ?uc) = retryTimers u"
      by (simp_all add: warnUnresolved_fields)
    show ?thesis using zero(1) p ww
      by (simp add: zero(2) zeroResolvedRetry_state st Let_def)
  next
    case rebuilt
    note r = rebuild_rebuilt [OF rebuilt(2)]
    have "warnings ?uc = warnings u" by simp
    with warnUnresolved_warnings [of gs' ?uc] rebuilt(3)
    have ww: "warnings u1 = warnings u \<or> (\<exists>k. k \<noteq> 0 \<and> warnings u1 = warnings u @ [k])" by simp
    show ?thesis using rebuilt(1) r(7,8,9) ww by simp
  qed
qed
  show ?thesis using rest trigger by blast
qed

text \<open>
  C8, witness: the first pass of the scenario, on the list without p2, resolves no
  group, sets the counter to 1 and schedules the two follow-up passes.
\<close>

theorem zero_resolved_retry_is_bounded_witness:
  "fst (applyGroupingToList noIds noIds (scenarioAfterAdd ''g1'') scenarioUi) = ZeroResolved
   \<and> getLoadedPresetName (scenarioAfterAdd ''g1'') = Some ''P''
   \<and> zeroResolvedRetryPreset (snd (applyGroupingToList noIds noIds (scenarioAfterAdd ''g1'') scenarioUi))
       = Some ''P''
   \<and> zeroResolvedRetryCount (snd (applyGroupingToList noIds noIds (scenarioAfterAdd ''g1'') scenarioUi)) = 1
   \<and> retryTimers (snd (applyGroupingToList noIds noIds (scenarioAfterAdd ''g1'') scenarioUi)) = [450, 1200]"
proof -
  obtain out u1 where pass: "applyGroupingToList noIds noIds (scenarioAfterAdd ''g1'') scenarioUi = (out, u1)"
    by (cases "applyGroupingToList noIds noIds (scenarioAfterAdd ''g1'') scenarioUi")
  have en0: "entryGroupingEnabled scenarioUi"
    and lc0: "listContainer scenarioUi
               = Some \<lparr>listNode = 0, itemIds = [''p1'', ''p3'', ''p4''], groupHeaders = []\<rparr>"
    and s0: "zeroResolvedRetryPreset scenarioUi = None" "zeroResolvedRetryCount scenarioUi = 0"
        "retryTimers scenarioUi = []"
    by (simp_all add: scenarioUi_def)
  have z: "out = ZeroResolved"
    using zero_pass_fields(1) [OF en0 lc0, of noIds noIds "''g1''"] pass by simp
  from zero_resolved_retry_is_bounded [OF pass] z
  show ?thesis by (simp add: pass scenario_host_preset s0)
qed


end
